theory Spec2Isabelle
  imports Main
begin

section \<open>JavaScript values\<close>

text \<open>
  The values a console call can receive.  Primitives are immediate; objects live in a
  heap and are named by a reference, so that two properties can hold the same object and
  an object can hold itself.  Numbers are the integral ones that JavaScript prints in
  plain decimal; strings are lists of code units below 256.
\<close>

type_synonym ref = nat

datatype jsval =
    VUndefined
  | VNull
  | VBool bool
  | VNum int
  | VBigInt int
  | VStr string
  | VSymbol string
  | VRef ref

text \<open>A property key is a string or a symbol (named by its description).\<close>

datatype pkey = KStr string | KSym string

text \<open>
  The kinds of object the code tells apart: ordinary objects, objects without a
  prototype (\<^verbatim>\<open>Object.create(null)\<close>), arrays, functions (name and source text), dates
  (the ISO text and the text of \<^verbatim>\<open>toString\<close>, or nothing for an invalid date),
  regular expressions (their text) and errors (the text of \<^verbatim>\<open>toString\<close> and the
  \<^verbatim>\<open>stack\<close>).  \<open>props\<close> are the own enumerable properties in creation order; for an
  array they are its elements.  Accessors, proxies, user-defined \<^verbatim>\<open>toString\<close> or
  \<^verbatim>\<open>toJSON\<close> and \<^verbatim>\<open>String\<close> wrapper objects are outside the model.
\<close>

datatype okind =
    PlainObject
  | NullProtoObject
  | ArrayObject
  | FunctionObject string string
  | DateObject "(string \<times> string) option"
  | RegExpObject string
  | ErrorObject string string

record obj =
  okind :: okind
  props :: "(pkey \<times> jsval) list"

type_synonym heap = "obj list"

text \<open>A reference outside the heap names no object; it is read as \<^verbatim>\<open>undefined\<close>.\<close>

definition obj_at :: "heap \<Rightarrow> ref \<Rightarrow> obj option" where
  "obj_at h r = (if r < length h then Some (h ! r) else None)"

text \<open>The exceptions the platform raises in the code modelled here.\<close>

datatype jserror = TypeError | RangeError

text \<open>
  The number of objects of the heap that are not on a given stack of objects under
  visit: what is left to descend into.
\<close>

definition room :: "heap \<Rightarrow> ref set \<Rightarrow> nat" where
  "room h st = card ({..<length h} - st)"

lemma room_insert: "obj_at h r = Some ob \<Longrightarrow> r \<notin> st \<Longrightarrow> room h (insert r st) < room h st"
  unfolding room_def obj_at_def
  by (intro psubset_card_mono) (auto split: if_splits)

section \<open>Text\<close>

text \<open>\<^verbatim>\<open>Array.prototype.join\<close> on strings.\<close>

definition join :: "string \<Rightarrow> string list \<Rightarrow> string" where
  "join sep xs = (case xs of [] \<Rightarrow> [] | y # ys \<Rightarrow> y @ concat (map (\<lambda>z. sep @ z) ys))"

definition digit :: "nat \<Rightarrow> char" where
  "digit n = ''0123456789abcdef'' ! n"

function show_nat :: "nat \<Rightarrow> string" where
  "show_nat n = (if n < 10 then [digit n] else show_nat (n div 10) @ [digit (n mod 10)])"
  by pat_completeness auto
termination
  by (relation "measure (\<lambda>n. n)") auto

definition show_int :: "int \<Rightarrow> string" where
  "show_int i = (if i < 0 then CHR ''-'' # show_nat (nat (- i)) else show_nat (nat i))"

text \<open>
  \<^verbatim>\<open>String.prototype.replaceAll\<close> with a string pattern: the occurrences are found
  left to right and do not overlap; the replacement is not searched again.  The
  sources only pass non-empty patterns.
\<close>

fun replaceAll :: "string \<Rightarrow> string \<Rightarrow> string \<Rightarrow> string" where
  "replaceAll pat rep [] = []"
| "replaceAll pat rep (c # cs) =
     (if pat \<noteq> [] \<and> take (length pat) (c # cs) = pat
      then rep @ replaceAll pat rep (drop (length pat - 1) cs)
      else c # replaceAll pat rep cs)"

text \<open>\<^verbatim>\<open>String.prototype.trim\<close>: white space and line terminators among the code units below 256.\<close>

definition is_whitespace :: "char \<Rightarrow> bool" where
  "is_whitespace c =
     (c \<in> {CHR 0x09, CHR 0x0A, CHR 0x0B, CHR 0x0C, CHR 0x0D, CHR 0x20, CHR 0xA0})"

definition trim :: "string \<Rightarrow> string" where
  "trim s = rev (dropWhile is_whitespace (rev (dropWhile is_whitespace s)))"

text \<open>A missing text (\<^verbatim>\<open>undefined\<close>) that is appended to a string reads \<^verbatim>\<open>undefined\<close>.\<close>

definition text_of :: "string option \<Rightarrow> string" where
  "text_of r = (case r of None \<Rightarrow> ''undefined'' | Some s \<Rightarrow> s)"

text \<open>Running a function that may throw over a list: the first exception ends the run.\<close>

fun map_result :: "('a \<Rightarrow> 'e + 'b) \<Rightarrow> 'a list \<Rightarrow> 'e + 'b list" where
  "map_result f [] = Inr []"
| "map_result f (x # xs) =
     (case f x of
        Inl e \<Rightarrow> Inl e
      | Inr y \<Rightarrow> (case map_result f xs of Inl e \<Rightarrow> Inl e | Inr ys \<Rightarrow> Inr (y # ys)))"

text \<open>The same for a function that may also run out of fuel (\<open>None\<close>).\<close>

fun map_result_opt :: "('a \<Rightarrow> ('e + 'b) option) \<Rightarrow> 'a list \<Rightarrow> ('e + 'b list) option" where
  "map_result_opt f [] = Some (Inr [])"
| "map_result_opt f (x # xs) =
     (case f x of
        None \<Rightarrow> None
      | Some (Inl e) \<Rightarrow> Some (Inl e)
      | Some (Inr y) \<Rightarrow>
          (case map_result_opt f xs of
             None \<Rightarrow> None
           | Some (Inl e) \<Rightarrow> Some (Inl e)
           | Some (Inr ys) \<Rightarrow> Some (Inr (y # ys))))"

section \<open>Platform primitives\<close>

text \<open>
  The built-ins of ECMAScript that the sources call, on the values above.  They are the
  platform's, not the repository's; each follows the language specification.
\<close>

subsection \<open>Conversion to string\<close>

text \<open>
  The abstract operation \<open>ToString\<close>.  A symbol and an object without a prototype (it
  has no \<^verbatim>\<open>toString\<close>) raise \<open>TypeError\<close>.  An array joins the conversions of its
  elements with commas, \<^verbatim>\<open>undefined\<close> and \<^verbatim>\<open>null\<close> giving the empty text; an array
  met again inside itself gives the empty text (the engines' cycle check for
  \<^verbatim>\<open>join\<close>), which \<open>st\<close>, the arrays under conversion, decides.
\<close>

function (sequential) ToString :: "heap \<Rightarrow> ref set \<Rightarrow> jsval \<Rightarrow> jserror + string"
  and ToString_elems :: "heap \<Rightarrow> ref set \<Rightarrow> jsval list \<Rightarrow> jserror + string list"
where
  "ToString h st VUndefined = Inr ''undefined''"
| "ToString h st VNull = Inr ''null''"
| "ToString h st (VBool b) = Inr (if b then ''true'' else ''false'')"
| "ToString h st (VNum n) = Inr (show_int n)"
| "ToString h st (VBigInt n) = Inr (show_int n)"
| "ToString h st (VStr s) = Inr s"
| "ToString h st (VSymbol d) = Inl TypeError"
| "ToString h st (VRef r) =
     (case obj_at h r of
        None \<Rightarrow> Inr ''undefined''
      | Some ob \<Rightarrow>
          (case okind ob of
             PlainObject \<Rightarrow> Inr ''[object Object]''
           | NullProtoObject \<Rightarrow> Inl TypeError
           | ArrayObject \<Rightarrow>
               if r \<in> st then Inr []
               else (case ToString_elems h (insert r st) (map snd (props ob)) of
                       Inl e \<Rightarrow> Inl e
                     | Inr ss \<Rightarrow> Inr (join '','' ss))
           | FunctionObject name src \<Rightarrow> Inr src
           | DateObject d \<Rightarrow> Inr (case d of None \<Rightarrow> ''Invalid Date'' | Some (ts, txt) \<Rightarrow> txt)
           | RegExpObject txt \<Rightarrow> Inr txt
           | ErrorObject txt stack \<Rightarrow> Inr txt))"
| "ToString_elems h st [] = Inr []"
| "ToString_elems h st (v # vs) =
     (case (if v = VUndefined \<or> v = VNull then Inr [] else ToString h st v) of
        Inl e \<Rightarrow> Inl e
      | Inr s \<Rightarrow>
          (case ToString_elems h st vs of
             Inl e \<Rightarrow> Inl e
           | Inr ss \<Rightarrow> Inr (s # ss)))"
  by pat_completeness auto
termination
  by (relation "inv_image (less_than <*lex*> less_than)
        (\<lambda>x. case x of Inl (h, st, v) \<Rightarrow> (room h st, 0)
                      | Inr (h, st, vs) \<Rightarrow> (room h st, Suc (length vs)))")
     (auto simp: room_insert)

text \<open>The function \<^verbatim>\<open>String(value)\<close>: as \<open>ToString\<close>, but a symbol gives its description.\<close>

definition js_String :: "heap \<Rightarrow> jsval \<Rightarrow> jserror + string" where
  "js_String h v =
     (case v of VSymbol d \<Rightarrow> Inr (''Symbol('' @ d @ '')'') | _ \<Rightarrow> ToString h {} v)"

text \<open>\<^verbatim>\<open>Object.prototype.toString.call(value)\<close>\<close>

definition Object_prototype_toString :: "heap \<Rightarrow> jsval \<Rightarrow> string" where
  "Object_prototype_toString h v =
     (case v of
        VUndefined \<Rightarrow> ''[object Undefined]''
      | VNull \<Rightarrow> ''[object Null]''
      | VBool b \<Rightarrow> ''[object Boolean]''
      | VNum n \<Rightarrow> ''[object Number]''
      | VBigInt n \<Rightarrow> ''[object BigInt]''
      | VStr s \<Rightarrow> ''[object String]''
      | VSymbol d \<Rightarrow> ''[object Symbol]''
      | VRef r \<Rightarrow>
          (case obj_at h r of
             None \<Rightarrow> ''[object Undefined]''
           | Some ob \<Rightarrow>
               (case okind ob of
                  PlainObject \<Rightarrow> ''[object Object]''
                | NullProtoObject \<Rightarrow> ''[object Object]''
                | ArrayObject \<Rightarrow> ''[object Array]''
                | FunctionObject name src \<Rightarrow> ''[object Function]''
                | DateObject d \<Rightarrow> ''[object Date]''
                | RegExpObject txt \<Rightarrow> ''[object RegExp]''
                | ErrorObject txt stack \<Rightarrow> ''[object Error]'')))"

subsection \<open>JSON.stringify\<close>

text \<open>\<open>QuoteJSONString\<close>: the quotes and the escapes of a JSON string.\<close>

definition QuoteJSONChar :: "char \<Rightarrow> string" where
  "QuoteJSONChar c =
     (if c = CHR 0x22 then [CHR 0x5C, CHR 0x22]
      else if c = CHR 0x5C then [CHR 0x5C, CHR 0x5C]
      else if c = CHR 0x08 then [CHR 0x5C, CHR ''b'']
      else if c = CHR 0x09 then [CHR 0x5C, CHR ''t'']
      else if c = CHR 0x0A then [CHR 0x5C, CHR ''n'']
      else if c = CHR 0x0C then [CHR 0x5C, CHR ''f'']
      else if c = CHR 0x0D then [CHR 0x5C, CHR ''r'']
      else if (of_char c :: nat) < 32
        then [CHR 0x5C, CHR ''u'', CHR ''0'', CHR ''0'',
              digit ((of_char c :: nat) div 16), digit ((of_char c :: nat) mod 16)]
      else [c])"

definition QuoteJSONString :: "string \<Rightarrow> string" where
  "QuoteJSONString s = [CHR 0x22] @ concat (map QuoteJSONChar s) @ [CHR 0x22]"

text \<open>
  The brackets around the members of an object or an array: on one line without a
  gap, one member per line and indented with it.
\<close>

definition json_wrap :: "string \<Rightarrow> string \<Rightarrow> string \<Rightarrow> string \<Rightarrow> string list \<Rightarrow> string" where
  "json_wrap opn cls gap stepback ms =
     (if ms = [] then opn @ cls
      else if gap = [] then opn @ join '','' ms @ cls
      else opn @ [CHR 0x0A] @ stepback @ gap
           @ join ('','' @ [CHR 0x0A] @ stepback @ gap) ms
           @ [CHR 0x0A] @ stepback @ cls)"

text \<open>
  \<open>SerializeJSONProperty\<close>, \<open>SerializeJSONObject\<close> and \<open>SerializeJSONArray\<close>.  The
  result is a text or nothing (\<^verbatim>\<open>undefined\<close>, for \<^verbatim>\<open>undefined\<close>, a symbol and a
  function).  A BigInt and an object met again inside itself raise \<open>TypeError\<close>;
  \<open>st\<close> is the stack of objects under serialization.  A date serializes through its
  \<^verbatim>\<open>toJSON\<close>: the ISO text, or \<^verbatim>\<open>null\<close> when it is invalid.  Symbol keys are skipped,
  members without a text are left out of an object and are \<^verbatim>\<open>null\<close> in an array.
\<close>

function (sequential)
  SerializeJSONProperty ::
    "heap \<Rightarrow> ref set \<Rightarrow> string \<Rightarrow> string \<Rightarrow> jsval \<Rightarrow> jserror + string option"
  and SerializeJSONObject ::
    "heap \<Rightarrow> ref set \<Rightarrow> string \<Rightarrow> string \<Rightarrow> (pkey \<times> jsval) list \<Rightarrow> jserror + string list"
  and SerializeJSONArray ::
    "heap \<Rightarrow> ref set \<Rightarrow> string \<Rightarrow> string \<Rightarrow> jsval list \<Rightarrow> jserror + string list"
where
  "SerializeJSONProperty h st gap ind VUndefined = Inr None"
| "SerializeJSONProperty h st gap ind VNull = Inr (Some ''null'')"
| "SerializeJSONProperty h st gap ind (VBool b) = Inr (Some (if b then ''true'' else ''false''))"
| "SerializeJSONProperty h st gap ind (VNum n) = Inr (Some (show_int n))"
| "SerializeJSONProperty h st gap ind (VBigInt n) = Inl TypeError"
| "SerializeJSONProperty h st gap ind (VStr s) = Inr (Some (QuoteJSONString s))"
| "SerializeJSONProperty h st gap ind (VSymbol d) = Inr None"
| "SerializeJSONProperty h st gap ind (VRef r) =
     (case obj_at h r of
        None \<Rightarrow> Inr None
      | Some ob \<Rightarrow>
          (case okind ob of
             FunctionObject name src \<Rightarrow> Inr None
           | DateObject d \<Rightarrow>
               Inr (Some (case d of None \<Rightarrow> ''null'' | Some (ts, txt) \<Rightarrow> QuoteJSONString ts))
           | ArrayObject \<Rightarrow>
               if r \<in> st then Inl TypeError
               else (case SerializeJSONArray h (insert r st) gap (ind @ gap) (map snd (props ob)) of
                       Inl e \<Rightarrow> Inl e
                     | Inr ms \<Rightarrow> Inr (Some (json_wrap ''['' '']'' gap ind ms)))
           | _ \<Rightarrow>
               if r \<in> st then Inl TypeError
               else (case SerializeJSONObject h (insert r st) gap (ind @ gap) (props ob) of
                       Inl e \<Rightarrow> Inl e
                     | Inr ms \<Rightarrow> Inr (Some (json_wrap ''{'' ''}'' gap ind ms)))))"
| "SerializeJSONObject h st gap ind [] = Inr []"
| "SerializeJSONObject h st gap ind ((k, v) # kvs) =
     (case k of
        KSym d \<Rightarrow> SerializeJSONObject h st gap ind kvs
      | KStr name \<Rightarrow>
          (case SerializeJSONProperty h st gap ind v of
             Inl e \<Rightarrow> Inl e
           | Inr r \<Rightarrow>
               (case SerializeJSONObject h st gap ind kvs of
                  Inl e \<Rightarrow> Inl e
                | Inr ms \<Rightarrow>
                    Inr (case r of
                           None \<Rightarrow> ms
                         | Some s \<Rightarrow>
                             (QuoteJSONString name @ '':'' @ (if gap = [] then [] else '' '') @ s)
                             # ms))))"
| "SerializeJSONArray h st gap ind [] = Inr []"
| "SerializeJSONArray h st gap ind (v # vs) =
     (case SerializeJSONProperty h st gap ind v of
        Inl e \<Rightarrow> Inl e
      | Inr r \<Rightarrow>
          (case SerializeJSONArray h st gap ind vs of
             Inl e \<Rightarrow> Inl e
           | Inr ms \<Rightarrow> Inr ((case r of None \<Rightarrow> ''null'' | Some s \<Rightarrow> s) # ms)))"
  by pat_completeness auto
termination
  by (relation "inv_image (less_than <*lex*> less_than)
        (\<lambda>x. case x of
                Inl (h, st, gap, ind, v) \<Rightarrow> (room h st, 0)
              | Inr (Inl (h, st, gap, ind, kvs)) \<Rightarrow> (room h st, Suc (length kvs))
              | Inr (Inr (h, st, gap, ind, vs)) \<Rightarrow> (room h st, Suc (length vs)))")
     (auto simp: room_insert)

text \<open>\<^verbatim>\<open>JSON.stringify(value, null, gap)\<close>; the sources pass a tab or no gap.\<close>

definition JSON_stringify :: "heap \<Rightarrow> jsval \<Rightarrow> string \<Rightarrow> jserror + string option" where
  "JSON_stringify h v gap = SerializeJSONProperty h {} gap [] v"

subsection \<open>Tests on values\<close>

definition is_function :: "obj \<Rightarrow> bool" where
  "is_function ob = (case okind ob of FunctionObject name src \<Rightarrow> True | _ \<Rightarrow> False)"

text \<open>\<^verbatim>\<open>arg instanceof Error && arg.stack\<close>: the stack when it is a non-empty text.\<close>

definition error_stack :: "heap \<Rightarrow> jsval \<Rightarrow> string option" where
  "error_stack h arg =
     (case arg of
        VRef r \<Rightarrow>
          (case obj_at h r of
             None \<Rightarrow> None
           | Some ob \<Rightarrow>
               (case okind ob of
                  ErrorObject txt stack \<Rightarrow> if stack \<noteq> [] then Some stack else None
                | _ \<Rightarrow> None))
      | _ \<Rightarrow> None)"

definition instanceof_Error :: "heap \<Rightarrow> jsval \<Rightarrow> bool" where
  "instanceof_Error h arg =
     (case arg of
        VRef r \<Rightarrow>
          (case obj_at h r of
             None \<Rightarrow> False
           | Some ob \<Rightarrow> (case okind ob of ErrorObject txt stack \<Rightarrow> True | _ \<Rightarrow> False))
      | _ \<Rightarrow> False)"

text \<open>\<^verbatim>\<open>arg instanceof Object\<close>: every object but one without a prototype.\<close>

definition instanceof_Object :: "heap \<Rightarrow> jsval \<Rightarrow> bool" where
  "instanceof_Object h arg =
     (case arg of
        VRef r \<Rightarrow>
          (case obj_at h r of
             None \<Rightarrow> False
           | Some ob \<Rightarrow> okind ob \<noteq> NullProtoObject)
      | _ \<Rightarrow> False)"

definition instanceof_Function :: "heap \<Rightarrow> jsval \<Rightarrow> bool" where
  "instanceof_Function h arg =
     (case arg of
        VRef r \<Rightarrow> (case obj_at h r of None \<Rightarrow> False | Some ob \<Rightarrow> is_function ob)
      | _ \<Rightarrow> False)"

subsection \<open>Collaborators taken as parameters\<close>

text \<open>
  Four pieces of the platform are parameters of the model, because their results are
  floating-point or third-party text: the converter \<^verbatim>\<open>ansi_up.ansi_to_html\<close> (taken as
  a function of its input text), \<^verbatim>\<open>String(parseInt(text))\<close>, \<^verbatim>\<open>String(parseFloat(text))\<close>,
  and the formatter of Node's own \<^verbatim>\<open>Console\<close> methods.
\<close>

record platform =
  ansi_to_html :: "string \<Rightarrow> string"
  parseInt_text :: "string \<Rightarrow> string"
  parseFloat_text :: "string \<Rightarrow> string"
  node_format :: "heap \<Rightarrow> jsval list \<Rightarrow> string"

section \<open>util.mjs\<close>

subsection \<open>escapeHtml and safeString\<close>

text \<open>
  \<^verbatim>\<open>
  export function escapeHtml(str) {
    return str.replaceAll('&', '&amp;').replaceAll('"', '&quot;')
              .replaceAll('<', '&lt;').replaceAll('>', '&gt;')
  }
  \<close>
\<close>

definition escapeHtml :: "string \<Rightarrow> string" where
  "escapeHtml str =
     replaceAll ''>'' ''&gt;''
       (replaceAll ''<'' ''&lt;''
          (replaceAll [CHR 0x22] ''&quot;''
             (replaceAll ''&'' ''&amp;'' str)))"

text \<open>
  \<^verbatim>\<open>
  export function safeString(arg) {
    try { return String(arg) }
    catch {
      try { return JSON.stringify(arg) }
      catch { return Object.prototype.toString.call(arg) }
    }
  }
  \<close>
  The result is a text, or \<^verbatim>\<open>undefined\<close> when \<^verbatim>\<open>JSON.stringify\<close> returns it.
\<close>

definition safeString :: "heap \<Rightarrow> jsval \<Rightarrow> string option" where
  "safeString h arg =
     (case js_String h arg of
        Inr s \<Rightarrow> Some s
      | Inl e \<Rightarrow>
          (case JSON_stringify h arg [] of
             Inr r \<Rightarrow> r
           | Inl e' \<Rightarrow> Some (Object_prototype_toString h arg)))"

subsection \<open>circularToString\<close>

text \<open>The table \<^verbatim>\<open>colors\<close>: escape sequences that start with the code unit 0x1B.\<close>

definition ESC :: char where "ESC = CHR 0x1B"
definition c_reset :: string where "c_reset = ESC # ''[0m''"
definition c_green :: string where "c_green = ESC # ''[32m''"
definition c_yellow :: string where "c_yellow = ESC # ''[33m''"
definition c_cyan :: string where "c_cyan = ESC # ''[36m''"
definition c_grey :: string where "c_grey = ESC # ''[90m''"
definition c_magenta :: string where "c_magenta = ESC # ''[35m''"

text \<open>\<^verbatim>\<open>const circularIds = new Map()\<close> and \<^verbatim>\<open>let idCounter = 1\<close>\<close>

record scan_state =
  circularIds :: "ref \<rightharpoonup> nat"
  idCounter :: nat

text \<open>
  \<^verbatim>\<open>[...Object.keys(value), ...Object.getOwnPropertySymbols(value)]\<close>: the string keys,
  then the symbol keys, each with its value.
\<close>

definition is_string_key :: "pkey \<times> jsval \<Rightarrow> bool" where
  "is_string_key kv = (case fst kv of KStr s \<Rightarrow> True | KSym d \<Rightarrow> False)"

definition own_keys :: "obj \<Rightarrow> (pkey \<times> jsval) list" where
  "own_keys ob = filter is_string_key (props ob) @ filter (\<lambda>kv. \<not> is_string_key kv) (props ob)"

text \<open>
  \<^verbatim>\<open>
  function scan(value) {
    if (typeof value !== 'object' || value === null) return
    if (walkStack.has(value)) {
      if (!circularIds.has(value)) circularIds.set(value, idCounter++)
      return
    }
    walkStack.add(value)
    const keys = [...Object.keys(value), ...Object.getOwnPropertySymbols(value)]
    for (const key of keys) scan(value[key])
    walkStack.delete(value)
  }
  \<close>
  \<open>walkStack\<close> is the same set when a call returns as when it started (the value is
  added only when absent and removed at the end), so it is an argument here; the map
  and the counter are threaded through the calls.
\<close>

function (sequential) scan :: "heap \<Rightarrow> ref set \<Rightarrow> jsval \<Rightarrow> scan_state \<Rightarrow> scan_state"
  and scan_keys :: "heap \<Rightarrow> ref set \<Rightarrow> jsval list \<Rightarrow> scan_state \<Rightarrow> scan_state"
where
  "scan h walkStack (VRef r) s =
     (case obj_at h r of
        None \<Rightarrow> s
      | Some ob \<Rightarrow>
          if is_function ob then s
          else if r \<in> walkStack then
            (if circularIds s r = None
             then s\<lparr>circularIds := (circularIds s)(r \<mapsto> idCounter s),
                    idCounter := idCounter s + 1\<rparr>
             else s)
          else scan_keys h (insert r walkStack) (map snd (own_keys ob)) s)"
| "scan h walkStack v s = s"
| "scan_keys h walkStack [] s = s"
| "scan_keys h walkStack (v # vs) s = scan_keys h walkStack vs (scan h walkStack v s)"
  by pat_completeness auto
termination
  by (relation "inv_image (less_than <*lex*> less_than)
        (\<lambda>x. case x of Inl (h, st, v, s) \<Rightarrow> (room h st, 0)
                      | Inr (h, st, vs, s) \<Rightarrow> (room h st, Suc (length vs)))")
     (auto simp: room_insert)

text \<open>
  The key of a member: \<^verbatim>\<open>[Symbol(d)]\<close> for a symbol, and between quotes (with quotes
  and line feeds escaped) unless it matches \<^verbatim>\<open>/^[$A-Z_a-z][\w$]*$/\<close>.
\<close>

definition is_ident_start :: "char \<Rightarrow> bool" where
  "is_ident_start c = (c \<in> set ''$ABCDEFGHIJKLMNOPQRSTUVWXYZ_abcdefghijklmnopqrstuvwxyz'')"

definition is_word_char :: "char \<Rightarrow> bool" where
  "is_word_char c = (is_ident_start c \<or> c \<in> set ''0123456789'')"

definition is_identifier :: "string \<Rightarrow> bool" where
  "is_identifier s =
     (case s of [] \<Rightarrow> False | c # cs \<Rightarrow> is_ident_start c \<and> list_all is_word_char cs)"

definition key_text :: "pkey \<Rightarrow> string" where
  "key_text key =
     (let keyStr = (case key of KSym d \<Rightarrow> ''[Symbol('' @ d @ '')]'' | KStr s \<Rightarrow> s);
          keyStr' = (if \<not> is_identifier keyStr
                     then [CHR 0x27]
                          @ replaceAll [CHR 0x0A] [CHR 0x5C, CHR ''n'']
                              (replaceAll [CHR 0x27] [CHR 0x5C, CHR 0x27] keyStr)
                          @ [CHR 0x27]
                     else keyStr)
      in keyStr' @ '': '')"

text \<open>\<^verbatim>\<open>refId\<close> as a condition (absent and 0 are false) and inside a template literal.\<close>

definition truthy_id :: "nat option \<Rightarrow> bool" where
  "truthy_id refId = (case refId of None \<Rightarrow> False | Some n \<Rightarrow> n \<noteq> 0)"

definition id_text :: "nat option \<Rightarrow> string" where
  "id_text refId = (case refId of None \<Rightarrow> ''undefined'' | Some n \<Rightarrow> show_nat n)"

text \<open>\<^verbatim>\<open>currentDepth > depth\<close>, where no depth stands for \<^verbatim>\<open>Infinity\<close>.\<close>

definition deeper_than :: "nat \<Rightarrow> nat option \<Rightarrow> bool" where
  "deeper_than currentDepth depth = (case depth of None \<Rightarrow> False | Some d \<Rightarrow> d < currentDepth)"

text \<open>
  \<^verbatim>\<open>function format(value, currentDepth)\<close>, in the order of the source: the
  primitives, functions, dates (\<^verbatim>\<open>toISOString\<close> raises \<open>RangeError\<close> on an invalid
  date) and regular expressions; then
  \<^verbatim>\<open>
  const refId = circularIds.get(value)
  if (seen.has(value) && refId) return `${colors.cyan}[Circular *${refId}]${colors.reset}`
  if (currentDepth > depth) return `${colors.cyan}[Object]${colors.reset}`
  seen.add(value)
  ...
  if (!keys.length) return `${prefix}${open}${close}`
  ...
  const content = keys.map(key => { ... format(value[key], currentDepth + 1) ... }).join(',\n')
  seen.delete(value)
  return `${prefix}${open}\n${content}\n${spaces}${close}`
  \<close>
  The set \<open>seen\<close> is threaded through the calls: an object without keys stays in it.
  A BigInt is none of the primitives the function lists and has no keys.  The recursion
  has no bound of its own when \<open>depth\<close> is \<^verbatim>\<open>Infinity\<close>, so the model counts the nesting
  of calls down from \<open>fuel\<close>; \<open>None\<close> is a nesting deeper than the fuel.
\<close>

fun format ::
    "nat \<Rightarrow> heap \<Rightarrow> (ref \<rightharpoonup> nat) \<Rightarrow> nat option \<Rightarrow> jsval \<Rightarrow> nat \<Rightarrow> ref set
     \<Rightarrow> (jserror + string \<times> ref set) option"
  and format_keys ::
    "nat \<Rightarrow> heap \<Rightarrow> (ref \<rightharpoonup> nat) \<Rightarrow> nat option \<Rightarrow> bool \<Rightarrow> (pkey \<times> jsval) list \<Rightarrow> nat \<Rightarrow> ref set
     \<Rightarrow> (jserror + string list \<times> ref set) option"
where
  "format 0 h ids depth v currentDepth seen = None"
| "format (Suc fuel) h ids depth (VStr s) currentDepth seen =
     Some (Inr (c_green @ [CHR 0x27] @ s @ [CHR 0x27] @ c_reset, seen))"
| "format (Suc fuel) h ids depth (VNum n) currentDepth seen =
     Some (Inr (c_yellow @ show_int n @ c_reset, seen))"
| "format (Suc fuel) h ids depth (VBool b) currentDepth seen =
     Some (Inr (c_yellow @ (if b then ''true'' else ''false'') @ c_reset, seen))"
| "format (Suc fuel) h ids depth VUndefined currentDepth seen =
     Some (Inr (c_grey @ ''undefined'' @ c_reset, seen))"
| "format (Suc fuel) h ids depth VNull currentDepth seen =
     Some (Inr (c_reset @ ''null'' @ c_reset, seen))"
| "format (Suc fuel) h ids depth (VSymbol d) currentDepth seen =
     Some (Inr (c_green @ ''Symbol('' @ d @ '')'' @ c_reset, seen))"
| "format (Suc fuel) h ids depth (VBigInt n) currentDepth seen =
     Some (Inr (if deeper_than currentDepth depth then c_cyan @ ''[Object]'' @ c_reset else ''{}'',
                seen))"
| "format (Suc fuel) h ids depth (VRef r) currentDepth seen =
     (case obj_at h r of
        None \<Rightarrow> Some (Inr (c_grey @ ''undefined'' @ c_reset, seen))
      | Some ob \<Rightarrow>
          (case okind ob of
             FunctionObject name src \<Rightarrow>
               Some (Inr (c_cyan @ ''[Function: ''
                          @ (if name = [] then ''(anonymous)'' else name) @ '']'' @ c_reset, seen))
           | DateObject d \<Rightarrow>
               (case d of
                  None \<Rightarrow> Some (Inl RangeError)
                | Some (ts, txt) \<Rightarrow> Some (Inr (c_magenta @ ts @ c_reset, seen)))
           | RegExpObject txt \<Rightarrow> Some (Inr (c_magenta @ txt @ c_reset, seen))
           | _ \<Rightarrow>
               (let refId = ids r in
                if r \<in> seen \<and> truthy_id refId
                then Some (Inr (c_cyan @ ''[Circular *'' @ id_text refId @ '']'' @ c_reset, seen))
                else if deeper_than currentDepth depth
                then Some (Inr (c_cyan @ ''[Object]'' @ c_reset, seen))
                else
                  (let seen1 = insert r seen;
                       isArray = (okind ob = ArrayObject);
                       prefix = (if truthy_id refId
                                 then c_cyan @ ''<ref *'' @ id_text refId @ ''>'' @ c_reset @ '' ''
                                 else []);
                       opn = (if isArray then ''['' else ''{'');
                       cls = (if isArray then '']'' else ''}'');
                       keys = own_keys ob
                   in if keys = [] then Some (Inr (prefix @ opn @ cls, seen1))
                      else
                        (case format_keys fuel h ids depth isArray keys currentDepth seen1 of
                           None \<Rightarrow> None
                         | Some (Inl e) \<Rightarrow> Some (Inl e)
                         | Some (Inr (items, seen2)) \<Rightarrow>
                             Some (Inr (prefix @ opn @ [CHR 0x0A]
                                        @ join ('','' @ [CHR 0x0A]) items
                                        @ [CHR 0x0A] @ replicate currentDepth (CHR 0x09) @ cls,
                                        seen2 - {r})))))))"
| "format_keys fuel h ids depth isArray [] currentDepth seen = Some (Inr ([], seen))"
| "format_keys fuel h ids depth isArray ((key, v) # kvs) currentDepth seen =
     (case format fuel h ids depth v (currentDepth + 1) seen of
        None \<Rightarrow> None
      | Some (Inl e) \<Rightarrow> Some (Inl e)
      | Some (Inr (valStr, seen1)) \<Rightarrow>
          (case format_keys fuel h ids depth isArray kvs currentDepth seen1 of
             None \<Rightarrow> None
           | Some (Inl e) \<Rightarrow> Some (Inl e)
           | Some (Inr (items, seen2)) \<Rightarrow>
               Some (Inr ((replicate (currentDepth + 1) (CHR 0x09)
                           @ (if isArray then [] else key_text key) @ valStr) # items,
                          seen2))))"

text \<open>
  \<^verbatim>\<open>
  export function circularToString(target, options = {}) {
    const { depth = Infinity } = options
    ...
    scan(target)
    const seen = new Set()
    ...
    return format(target, 0)
  }
  \<close>
\<close>

definition circularToString ::
  "nat \<Rightarrow> heap \<Rightarrow> jsval \<Rightarrow> nat option \<Rightarrow> (jserror + string) option"
where
  "circularToString fuel h target depth =
     (let s = scan h {} target \<lparr>circularIds = Map.empty, idCounter = 1\<rparr>
      in map_option (map_sum id fst) (format fuel h (circularIds s) depth target 0 {}))"

subsection \<open>argToHtml and argsToHtml\<close>

text \<open>
  \<^verbatim>\<open>
  function argToHtml(arg) {
    if (arg instanceof Error && arg.stack) return ansi_up.ansi_to_html(arg.stack)
    if ((arg === null || arg instanceof Object) && !(arg instanceof Function))
      try { return ansi_up.ansi_to_html(JSON.stringify(arg, null, '\t')) }
      catch { /* fall through */ }
    return ansi_up.ansi_to_html(circularToString(arg))
  }
  \<close>
\<close>

definition argToHtml :: "nat \<Rightarrow> platform \<Rightarrow> heap \<Rightarrow> jsval \<Rightarrow> (jserror + string) option" where
  "argToHtml fuel P h arg =
     (case error_stack h arg of
        Some stack \<Rightarrow> Some (Inr (ansi_to_html P stack))
      | None \<Rightarrow>
          (case (if (arg = VNull \<or> instanceof_Object h arg) \<and> \<not> instanceof_Function h arg
                 then JSON_stringify h arg [CHR 0x09] else Inl TypeError) of
             Inr r \<Rightarrow> Some (Inr (ansi_to_html P (text_of r)))
           | Inl e \<Rightarrow>
               map_option (map_sum id (ansi_to_html P)) (circularToString fuel h arg None)))"

text \<open>
  The callback of \<^verbatim>\<open>html.replace(regex, ...)\<close> for a specifier that has an argument:
  \<^verbatim>\<open>
  case '%c': { hasStyle = true
               return `</span><span style="${escapeHtml(safeString(arg))}">` }
  case '%s': return ansi_up.ansi_to_html(safeString(arg))
  case '%d': case '%i': return String(parseInt(safeString(arg)))
  case '%f': return String(parseFloat(safeString(arg)))
  case '%o': case '%O': return ansi_up.ansi_to_html(circularToString(arg))
  case '%j': try { return ansi_up.ansi_to_html(JSON.stringify(arg)) }
             catch { return ansi_up.ansi_to_html(safeString(arg)) }
  \<close>
  \<^verbatim>\<open>escapeHtml(undefined)\<close> raises \<open>TypeError\<close>.
\<close>

definition html_subst ::
  "nat \<Rightarrow> platform \<Rightarrow> heap \<Rightarrow> char \<Rightarrow> jsval \<Rightarrow> (jserror + string) option"
where
  "html_subst fuel P h d arg =
     (if d = CHR ''c'' then
        (case safeString h arg of
           None \<Rightarrow> Some (Inl TypeError)
         | Some s \<Rightarrow>
             Some (Inr (''</span><span style='' @ [CHR 0x22] @ escapeHtml s @ [CHR 0x22] @ ''>'')))
      else if d = CHR ''s'' then Some (Inr (ansi_to_html P (text_of (safeString h arg))))
      else if d = CHR ''d'' \<or> d = CHR ''i'' then
        Some (Inr (parseInt_text P (text_of (safeString h arg))))
      else if d = CHR ''f'' then Some (Inr (parseFloat_text P (text_of (safeString h arg))))
      else if d = CHR ''o'' \<or> d = CHR ''O'' then
        map_option (map_sum id (ansi_to_html P)) (circularToString fuel h arg None)
      else
        (case JSON_stringify h arg [] of
           Inr r \<Rightarrow> Some (Inr (ansi_to_html P (text_of r)))
         | Inl e \<Rightarrow> Some (Inr (ansi_to_html P (text_of (safeString h arg))))))"

text \<open>
  \<^verbatim>\<open>html.replace(/%[%Ocdfijos]/g, (match) => { ... })\<close> with
  \<^verbatim>\<open>if (match === '%%') return '%'\<close> and \<^verbatim>\<open>if (argIndex >= args.length) return match\<close>.
  The result is the new text, the arguments that were not consumed, and \<^verbatim>\<open>hasStyle\<close>.
\<close>

definition prepend ::
  "string \<Rightarrow> (jserror + string \<times> jsval list \<times> bool) option
   \<Rightarrow> (jserror + string \<times> jsval list \<times> bool) option"
where
  "prepend s res = map_option (map_sum id (\<lambda>(out, r, st). (s @ out, r, st))) res"

definition with_style ::
  "(jserror + string \<times> jsval list \<times> bool) option
   \<Rightarrow> (jserror + string \<times> jsval list \<times> bool) option"
where
  "with_style res = map_option (map_sum id (\<lambda>(out, r, st). (out, r, True))) res"

fun html_replace ::
  "nat \<Rightarrow> platform \<Rightarrow> heap \<Rightarrow> string \<Rightarrow> jsval list
   \<Rightarrow> (jserror + string \<times> jsval list \<times> bool) option"
where
  "html_replace fuel P h (c # d # cs) args =
     (if c = CHR ''%'' \<and> d \<in> set ''%Ocdfijos'' then
        (if d = CHR ''%'' then prepend ''%'' (html_replace fuel P h cs args)
         else
           (case args of
              [] \<Rightarrow> prepend [c, d] (html_replace fuel P h cs [])
            | arg # rest \<Rightarrow>
                (case html_subst fuel P h d arg of
                   None \<Rightarrow> None
                 | Some (Inl e) \<Rightarrow> Some (Inl e)
                 | Some (Inr s) \<Rightarrow>
                     (if d = CHR ''c'' then with_style else (\<lambda>x. x))
                       (prepend s (html_replace fuel P h cs rest)))))
      else prepend [c] (html_replace fuel P h (d # cs) args))"
| "html_replace fuel P h cs args = Some (Inr (cs, args, False))"

text \<open>
  \<^verbatim>\<open>
  export function argsToHtml(args) {
    if (args.length === 0) return ''
    const format = args[0]
    if (format?.constructor !== String)
      return args.map(argToHtml).join(' ')
    let html = ansi_up.ansi_to_html(format)
    ...
    if (hasStyle) html = `<span>${html}</span>`
    const replaceTable = { '<span style="">': '<span>', '<span></span>': '' }
    Object.entries(replaceTable).forEach(([key, value]) => { html = html.replaceAll(key, value) })
    html += ' ' + args.slice(argIndex).map(argToHtml).join(' ')
    return html.trim().replaceAll('\n', '<br/>\n')
  }
  \<close>
  Among the values of the model, \<^verbatim>\<open>format?.constructor === String\<close> holds of the
  strings.
\<close>

definition argsToHtml :: "nat \<Rightarrow> platform \<Rightarrow> heap \<Rightarrow> jsval list \<Rightarrow> (jserror + string) option" where
  "argsToHtml fuel P h args =
     (case args of
        [] \<Rightarrow> Some (Inr [])
      | template # rest \<Rightarrow>
          (case template of
             VStr fmt \<Rightarrow>
               (case html_replace fuel P h (ansi_to_html P fmt) rest of
                  None \<Rightarrow> None
                | Some (Inl e) \<Rightarrow> Some (Inl e)
                | Some (Inr (html0, rest', hasStyle)) \<Rightarrow>
                    (let html1 = (if hasStyle then ''<span>'' @ html0 @ ''</span>'' else html0);
                         html2 = replaceAll (''<span style='' @ [CHR 0x22, CHR 0x22] @ ''>'')
                                   ''<span>'' html1;
                         html3 = replaceAll ''<span></span>'' [] html2
                     in case map_result_opt (argToHtml fuel P h) rest' of
                          None \<Rightarrow> None
                        | Some (Inl e) \<Rightarrow> Some (Inl e)
                        | Some (Inr pieces) \<Rightarrow>
                            Some (Inr (replaceAll [CHR 0x0A] (''<br/>'' @ [CHR 0x0A])
                                         (trim (html3 @ '' '' @ join '' '' pieces))))))
           | _ \<Rightarrow> map_option (map_sum id (join '' '')) (map_result_opt (argToHtml fuel P h) args)))"

section \<open>browser.mjs: formatArgs\<close>

text \<open>
  The first branch, for a first argument that is not a string:
  \<^verbatim>\<open>
  return args.map(arg => {
    if (Object(arg) instanceof String) return arg
    if (arg instanceof Error && arg.stack) return arg.stack
    try { return JSON.stringify(arg, null, '\t') }
    catch { return String(arg) }
  }).join(' ')
  \<close>
  \<^verbatim>\<open>join\<close> reads an \<^verbatim>\<open>undefined\<close> element as the empty text.
\<close>

definition plain_arg :: "heap \<Rightarrow> jsval \<Rightarrow> jserror + string" where
  "plain_arg h arg =
     (case arg of
        VStr s \<Rightarrow> Inr s
      | _ \<Rightarrow>
          (case error_stack h arg of
             Some stack \<Rightarrow> Inr stack
           | None \<Rightarrow>
               (case JSON_stringify h arg [CHR 0x09] of
                  Inr r \<Rightarrow> Inr (case r of None \<Rightarrow> [] | Some s \<Rightarrow> s)
                | Inl e \<Rightarrow> js_String h arg)))"

text \<open>
  The \<^verbatim>\<open>switch\<close> of the loop, for a specifier that has an argument:
  \<^verbatim>\<open>
  case '%c': break
  case '%s': output += String(arg); break
  case '%d': case '%i': output += String(parseInt(arg)); break
  case '%f': output += String(parseFloat(arg)); break
  case '%o': case '%O':
    try { output += JSON.stringify(arg, null, '\t') }
    catch { output += String(arg) }
    break
  \<close>
  \<^verbatim>\<open>parseInt\<close> and \<^verbatim>\<open>parseFloat\<close> convert their argument with \<open>ToString\<close> first.
\<close>

definition plain_subst :: "platform \<Rightarrow> heap \<Rightarrow> char \<Rightarrow> jsval \<Rightarrow> jserror + string" where
  "plain_subst P h d arg =
     (if d = CHR ''c'' then Inr []
      else if d = CHR ''s'' then js_String h arg
      else if d = CHR ''d'' \<or> d = CHR ''i'' then map_sum id (parseInt_text P) (ToString h {} arg)
      else if d = CHR ''f'' then map_sum id (parseFloat_text P) (ToString h {} arg)
      else (case JSON_stringify h arg [CHR 0x09] of
              Inr r \<Rightarrow> Inr (text_of r)
            | Inl e \<Rightarrow> js_String h arg))"

text \<open>
  The loop over the matches of \<^verbatim>\<open>/%[sdifoOc%]/g\<close>:
  \<^verbatim>\<open>
  while ((match = regex.exec(format)) !== null) {
    output += format.slice(lastIndex, match.index)
    lastIndex = regex.lastIndex
    if (match[0] === '%%') { output += '%'; continue }
    if (argIndex >= args.length) { output += match[0]; continue }
    const arg = args[argIndex++]
    switch (match[0]) { ... }
  }
  output += format.slice(lastIndex)
  \<close>
  The result is the output and the arguments that were not consumed.
\<close>

definition emit :: "string \<Rightarrow> jserror + string \<times> jsval list \<Rightarrow> jserror + string \<times> jsval list" where
  "emit s res = map_sum id (\<lambda>(out, r). (s @ out, r)) res"

fun format_loop :: "platform \<Rightarrow> heap \<Rightarrow> string \<Rightarrow> jsval list \<Rightarrow> jserror + string \<times> jsval list" where
  "format_loop P h (c # d # cs) args =
     (if c = CHR ''%'' \<and> d \<in> set ''sdifoOc%'' then
        (if d = CHR ''%'' then emit ''%'' (format_loop P h cs args)
         else
           (case args of
              [] \<Rightarrow> emit [c, d] (format_loop P h cs [])
            | arg # rest \<Rightarrow>
                (case plain_subst P h d arg of
                   Inl e \<Rightarrow> Inl e
                 | Inr s \<Rightarrow> emit s (format_loop P h cs rest))))
      else emit [c] (format_loop P h (d # cs) args))"
| "format_loop P h cs args = Inr (cs, args)"

text \<open>
  The arguments left over:
  \<^verbatim>\<open>
  while (argIndex < args.length) {
    const arg = args[argIndex++]
    if (output) output += ' '
    if (arg instanceof Error && arg.stack) output += arg.stack
    else if ((arg === null || arg instanceof Object) && !(arg instanceof Function))
      try { output += JSON.stringify(arg, null, '\t') }
      catch { output += String(arg) }
    else output += String(arg)
  }
  \<close>
\<close>

definition rest_arg :: "heap \<Rightarrow> jsval \<Rightarrow> jserror + string" where
  "rest_arg h arg =
     (case error_stack h arg of
        Some stack \<Rightarrow> Inr stack
      | None \<Rightarrow>
          if (arg = VNull \<or> instanceof_Object h arg) \<and> \<not> instanceof_Function h arg then
            (case JSON_stringify h arg [CHR 0x09] of
               Inr r \<Rightarrow> Inr (text_of r)
             | Inl e \<Rightarrow> js_String h arg)
          else js_String h arg)"

fun append_rest :: "heap \<Rightarrow> string \<Rightarrow> jsval list \<Rightarrow> jserror + string" where
  "append_rest h output [] = Inr output"
| "append_rest h output (arg # args) =
     (case rest_arg h arg of
        Inl e \<Rightarrow> Inl e
      | Inr s \<Rightarrow> append_rest h ((if output \<noteq> [] then output @ '' '' else output) @ s) args)"

text \<open>
  \<^verbatim>\<open>
  function formatArgs(args) {
    if (args.length === 0) return ''
    const format = args[0]
    if (format?.constructor !== String) return args.map(...).join(' ')
    ...
    return output
  }
  \<close>
\<close>

definition formatArgs :: "platform \<Rightarrow> heap \<Rightarrow> jsval list \<Rightarrow> jserror + string" where
  "formatArgs P h args =
     (case args of
        [] \<Rightarrow> Inr []
      | template # rest \<Rightarrow>
          (case template of
             VStr fmt \<Rightarrow>
               (case format_loop P h fmt rest of
                  Inl e \<Rightarrow> Inl e
                | Inr (output, rest') \<Rightarrow> append_rest h output rest')
           | _ \<Rightarrow> map_sum id (join '' '') (map_result (plain_arg h) args)))"

section \<open>Context router (browser.mjs, node.mjs)\<close>

text \<open>
  browser.mjs keeps the active instance in one module-level cell,
  \<^verbatim>\<open>let currentAsyncConsole = null\<close>, beside the constant \<^verbatim>\<open>defaultConsole\<close>.
\<close>

record 'i router =
  currentAsyncConsole :: "'i option"
  defaultConsole :: 'i



text \<open>
  How a statement ends: normally with a value, or by throwing.  For a promise the two
  cases are fulfilment and rejection.
\<close>

datatype 'a completion = Normal 'a | Throw jsval

text \<open>
  What the call \<^verbatim>\<open>fn()\<close> gives back to \<^verbatim>\<open>consoleReflectRun\<close>: a plain value, an
  exception, or a pending promise.  A pending promise is settled later by the rest of
  \<^verbatim>\<open>fn\<close>, which runs on the cell as it then is and may rebind it.
\<close>

datatype ('i, 'a) fn_result =
    Value 'a
  | Raise jsval
  | Promise "'i option \<Rightarrow> 'a completion \<times> 'i option"

text \<open>
  \<^verbatim>\<open>await Promise.resolve(result)\<close>: the function is suspended, whatever else is
  scheduled (\<open>env\<close>) runs on the cell, and then the promise settles.
\<close>

fun await_result ::
  "('i option \<Rightarrow> 'i option) \<Rightarrow> ('i, 'a) fn_result \<Rightarrow> 'i option \<Rightarrow> 'a completion \<times> 'i option"
where
  "await_result env (Value a) c = (Normal a, env c)"
| "await_result env (Raise e) c = (Throw e, c)"
| "await_result env (Promise k) c = k (env c)"

text \<open>
  browser.mjs:
  \<^verbatim>\<open>
  let consoleReflectRun = async (v, fn) => {
    const previousConsole = currentAsyncConsole
    currentAsyncConsole = v
    try {
      const result = fn()
      return await Promise.resolve(result)
    }
    finally {
      currentAsyncConsole = previousConsole
    }
  }
  \<close>
  The body of the \<^verbatim>\<open>try\<close> is \<open>run_body\<close>; the \<^verbatim>\<open>finally\<close> block runs on every
  completion of it.  The result is the settlement of the returned promise and the cell
  at that moment.
\<close>

definition run_body ::
  "('i option \<Rightarrow> ('i, 'a) fn_result \<times> 'i option) \<Rightarrow> ('i option \<Rightarrow> 'i option) \<Rightarrow>
   'i option \<Rightarrow> 'a completion \<times> 'i option"
where
  "run_body fn env c = (case fn c of (result, c') \<Rightarrow> await_result env result c')"

definition try_finally ::
  "('s \<Rightarrow> 'r \<times> 's) \<Rightarrow> ('s \<Rightarrow> 's) \<Rightarrow> 's \<Rightarrow> 'r \<times> 's"
where
  "try_finally body final s = (case body s of (r, s') \<Rightarrow> (r, final s'))"

definition consoleReflectRun ::
  "'i \<Rightarrow> ('i option \<Rightarrow> ('i, 'a) fn_result \<times> 'i option) \<Rightarrow> ('i option \<Rightarrow> 'i option) \<Rightarrow>
   'i router \<Rightarrow> 'a completion \<times> 'i router"
where
  "consoleReflectRun v fn env r =
     (let previousConsole = currentAsyncConsole r;
          r1 = r\<lparr>currentAsyncConsole := Some v\<rparr>
      in case try_finally (run_body fn env) (\<lambda>_. previousConsole) (currentAsyncConsole r1) of
           (outcome, c) \<Rightarrow> (outcome, r1\<lparr>currentAsyncConsole := c\<rparr>))"

text \<open>
  node.mjs delegates to the platform:
  \<^verbatim>\<open>let consoleReflectRun = (v, fn) => consoleAsyncStorage.run(v, fn)\<close>.
  \<open>AsyncLocalStorage.run\<close> is Node's, not this repository's; as Node documents it, the
  store is \<open>v\<close> inside the callback and in what the callback schedules, the store of the
  caller is untouched, and the callback's return value or exception is the call's.
\<close>

definition AsyncLocalStorage_run ::
  "'i \<Rightarrow> ('i option \<Rightarrow> 'r \<times> 'i option) \<Rightarrow> 'i option \<Rightarrow> 'r \<times> 'i option"
where
  "AsyncLocalStorage_run v fn store = (fst (fn (Some v)), store)"

definition node_consoleReflectRun ::
  "'i \<Rightarrow> ('i option \<Rightarrow> 'r \<times> 'i option) \<Rightarrow> 'i option \<Rightarrow> 'r \<times> 'i option"
where
  "node_consoleReflectRun v fn store = AsyncLocalStorage_run v fn store"

section \<open>The global console facade (browser.mjs, node.mjs)\<close>








section \<open>Capturing console instance (browser.mjs, node.mjs)\<close>

text \<open>The console methods the browser constructor lists; node.mjs wraps the first five.\<close>

datatype console_method =
    Log | Info | Warn | Debug | Error
  | Table | Dir | Assert | Count | CountReset | Time | TimeLog | TimeEnd
  | Group | GroupCollapsed | GroupEnd

text \<open>
  The merged configuration \<^verbatim>\<open>this.options\<close>.  An error handler is a function of the
  embedding program; it is named by a number here, and calling it is an event.
\<close>

record options =
  realConsoleOutput :: bool
  recordOutput :: bool
  supportsAnsi :: bool
  error_handler :: "nat option"

text \<open>
  The fields of an instance: the two buffers, the configuration and the private
  \<^verbatim>\<open>#loggedFreshLineId\<close>.
\<close>

record vconsole =
  outputs :: string
  outputsHtml :: string
  opts :: options
  loggedFreshLineId :: "string option"

text \<open>
  What an instance does to its collaborators, in order: a call of a method of the base
  console with an argument list, a call of the base console's \<^verbatim>\<open>clear\<close>, a call of the
  error handler, a chunk written to one of the base console's streams.
\<close>

datatype stream = Stdout | Stderr

datatype event =
    BaseCall console_method "jsval list"
  | BaseClear
  | HandlerCall nat jsval
  | BaseWrite stream string

text \<open>
  \<^verbatim>\<open>
  clear() {
    this.#loggedFreshLineId = null
    this.outputs = ''
    this.outputsHtml = ''
    if (this.options.realConsoleOutput)
      this.#base_console.clear()
  }
  \<close>
  The method has the same text in browser.mjs and in node.mjs.
\<close>

definition clear :: "vconsole \<Rightarrow> vconsole \<times> event list" where
  "clear c =
     (c\<lparr>loggedFreshLineId := None, outputs := [], outputsHtml := []\<rparr>,
      if realConsoleOutput (opts c) then [BaseClear] else [])"

text \<open>
  The test that sends a call to the error handler:
  \<^verbatim>\<open>method == 'error' && this.options.error_handler && args.length === 1
      && args[0] instanceof Error\<close>
\<close>

definition intercepts :: "heap \<Rightarrow> vconsole \<Rightarrow> console_method \<Rightarrow> jsval list \<Rightarrow> nat option" where
  "intercepts h c m args =
     (if m = Error \<and> length args = 1 \<and> instanceof_Error h (hd args)
      then error_handler (opts c) else None)"

text \<open>
  A call either throws, leaving the instance in some state, or returns, with the new
  state and what reached the collaborators; \<open>None\<close> is the stringifier out of fuel.
\<close>

type_synonym call_result = "((jserror \<times> vconsole) + (vconsole \<times> event list)) option"

text \<open>
  browser.mjs, for each name in the list that the base console has a function for:
  \<^verbatim>\<open>
  this[method] = (...args) => {
    if (method == 'error' && this.options.error_handler && args.length === 1
        && args[0] instanceof Error) return this.options.error_handler(args[0])
    this.#loggedFreshLineId = null
    if (this.options.recordOutput) {
      this.outputs += formatArgs(args) + '\n'
      this.outputsHtml += argsToHtml(args) + '<br/>\n'
    }
    if (this.options.realConsoleOutput)
      this.#base_console[method](...args)
  }
  \<close>
\<close>

definition browser_call ::
  "nat \<Rightarrow> platform \<Rightarrow> heap \<Rightarrow> console_method \<Rightarrow> jsval list \<Rightarrow> vconsole \<Rightarrow> call_result"
where
  "browser_call fuel P h m args c =
     (case intercepts h c m args of
        Some handler \<Rightarrow> Some (Inr (c, [HandlerCall handler (hd args)]))
      | None \<Rightarrow>
          (let c1 = c\<lparr>loggedFreshLineId := None\<rparr>;
               pass = (if realConsoleOutput (opts c) then [BaseCall m args] else [])
           in if recordOutput (opts c) then
                (case formatArgs P h args of
                   Inl e \<Rightarrow> Some (Inl (e, c1))
                 | Inr plain \<Rightarrow>
                     (let c2 = c1\<lparr>outputs := outputs c1 @ plain @ [CHR 0x0A]\<rparr>
                      in case argsToHtml fuel P h args of
                           None \<Rightarrow> None
                         | Some (Inl e) \<Rightarrow> Some (Inl (e, c2))
                         | Some (Inr html) \<Rightarrow>
                             Some (Inr (c2\<lparr>outputsHtml :=
                                              outputsHtml c2 @ html @ ''<br/>'' @ [CHR 0x0A]\<rparr>,
                                        pass))))
              else Some (Inr (c1, pass))))"

text \<open>
  node.mjs wraps five methods of Node's \<^verbatim>\<open>Console\<close>, which the class extends:
  \<^verbatim>\<open>
  for (const method of ['log', 'info', 'warn', 'debug', 'error']) {
    if (!this[method]) continue
    const originalMethod = this[method]
    this[method] = (...args) => {
      if (method == 'error' && this.options.error_handler && args.length === 1
          && args[0] instanceof Error) return this.options.error_handler(args[0])
      if (this.options.recordOutput) this.outputsHtml += argsToHtml(args) + '<br/>\n'
      if (!this.options.realConsoleOutput || this.options.recordOutput)
        return originalMethod.apply(this, args)
      this.#loggedFreshLineId = null
      return this.#base_console[method](...args)
    }
  }
  \<close>
\<close>

datatype node_method = NLog | NInfo | NWarn | NDebug | NError

fun method_of :: "node_method \<Rightarrow> console_method" where
  "method_of NLog = Log"
| "method_of NInfo = Info"
| "method_of NWarn = Warn"
| "method_of NDebug = Debug"
| "method_of NError = Error"

text \<open>Node's \<^verbatim>\<open>Console\<close> writes \<^verbatim>\<open>warn\<close> and \<^verbatim>\<open>error\<close> to its second stream.\<close>

fun stream_of :: "node_method \<Rightarrow> stream" where
  "stream_of NWarn = Stderr"
| "stream_of NError = Stderr"
| "stream_of m = Stdout"

text \<open>
  \<^verbatim>\<open>originalMethod.apply(this, args)\<close> is Node's method: it formats the arguments and
  writes the line to the instance's own stream, the \<^verbatim>\<open>VirtualStream\<close> of node.mjs:
  \<^verbatim>\<open>
  write: (chunk, encoding, callback) => {
    context.onWrite()                       // this.#loggedFreshLineId = null
    if (context.options.recordOutput)
      context.state.outputs += chunk.toString()
    if (context.options.realConsoleOutput)
      targetStream.write(chunk, encoding, callback)
    else
      callback()
  }
  \<close>
  where \<^verbatim>\<open>targetStream\<close> is the matching stream of the base console.
\<close>

definition VirtualStream_write :: "stream \<Rightarrow> string \<Rightarrow> vconsole \<Rightarrow> vconsole \<times> event list" where
  "VirtualStream_write st chunk c =
     (let c1 = c\<lparr>loggedFreshLineId := None\<rparr>;
          c2 = (if recordOutput (opts c) then c1\<lparr>outputs := outputs c1 @ chunk\<rparr> else c1)
      in (c2, if realConsoleOutput (opts c) then [BaseWrite st chunk] else []))"

definition originalMethod ::
  "platform \<Rightarrow> heap \<Rightarrow> node_method \<Rightarrow> jsval list \<Rightarrow> vconsole \<Rightarrow> vconsole \<times> event list"
where
  "originalMethod P h m args c =
     VirtualStream_write (stream_of m) (node_format P h args @ [CHR 0x0A]) c"

definition node_call ::
  "nat \<Rightarrow> platform \<Rightarrow> heap \<Rightarrow> node_method \<Rightarrow> jsval list \<Rightarrow> vconsole \<Rightarrow> call_result"
where
  "node_call fuel P h m args c =
     (case intercepts h c (method_of m) args of
        Some handler \<Rightarrow> Some (Inr (c, [HandlerCall handler (hd args)]))
      | None \<Rightarrow>
          (let dispatch = (\<lambda>c1.
                 if \<not> realConsoleOutput (opts c) \<or> recordOutput (opts c)
                 then Some (Inr (originalMethod P h m args c1))
                 else Some (Inr (c1\<lparr>loggedFreshLineId := None\<rparr>,
                                 [BaseCall (method_of m) args])))
           in if recordOutput (opts c) then
                (case argsToHtml fuel P h args of
                   None \<Rightarrow> None
                 | Some (Inl e) \<Rightarrow> Some (Inl (e, c))
                 | Some (Inr html) \<Rightarrow>
                     dispatch (c\<lparr>outputsHtml := outputsHtml c @ html @ ''<br/>'' @ [CHR 0x0A]\<rparr>))
              else dispatch c))"

section \<open>Inputs for the examples\<close>

text \<open>
  A platform to run examples on.  Its converter only escapes markup, which is what the
  converter does to a text without escape sequences; its number parsers answer
  \<^verbatim>\<open>NaN\<close>; its Node formatter prints string arguments separated by spaces.  The
  examples stay on inputs where this is what the real platform gives.
\<close>

definition sample_platform :: platform where
  "sample_platform =
     \<lparr>ansi_to_html = escapeHtml,
      parseInt_text = (\<lambda>s. ''NaN''),
      parseFloat_text = (\<lambda>s. ''NaN''),
      node_format = (\<lambda>h args. join '' '' (map (\<lambda>a. case a of VStr s \<Rightarrow> s | _ \<Rightarrow> []) args))\<rparr>"

text \<open>A heap with one error object, thrown from \<^verbatim>\<open>main\<close>.\<close>

definition boom_heap :: heap where
  "boom_heap = [\<lparr>okind = ErrorObject ''Error: boom'' (''Error: boom'' @ [CHR 0x0A] @ ''    at main''),
                  props = []\<rparr>]"

text \<open>
  An instance that has already captured output and has a pending overwritable line,
  with pass-through, recording and the error handler as given.
\<close>

definition console_with :: "bool \<Rightarrow> bool \<Rightarrow> nat option \<Rightarrow> vconsole" where
  "console_with real rec handler =
     \<lparr>outputs = ''old'', outputsHtml = ''old'',
      opts = \<lparr>realConsoleOutput = real, recordOutput = rec, supportsAnsi = False,
              error_handler = handler\<rparr>,
      loggedFreshLineId = Some ''progress''\<rparr>"

lemma instanceof_Error_boom: "instanceof_Error boom_heap (VRef 0)"
  by (simp add: instanceof_Error_def boom_heap_def obj_at_def)


text \<open>
  Heaps with one object each: an empty object without a prototype, an object without a
  prototype that holds itself, and an invalid date (\<^verbatim>\<open>new Date(NaN)\<close>).
\<close>

definition null_proto_heap :: heap where
  "null_proto_heap = [\<lparr>okind = NullProtoObject, props = []\<rparr>]"

definition null_proto_cycle_heap :: heap where
  "null_proto_cycle_heap = [\<lparr>okind = NullProtoObject, props = [(KStr ''self'', VRef 0)]\<rparr>]"

definition invalid_date_heap :: heap where
  "invalid_date_heap = [\<lparr>okind = DateObject None, props = []\<rparr>]"



section \<open>The rendering that the specification describes\<close>







section \<open>What the stringifier walks\<close>

text \<open>
  \<open>visits h W v W' v'\<close>: the scan called on \<open>v\<close> with the walk stack \<open>W\<close> reaches a call on
  \<open>v'\<close> with the walk stack \<open>W'\<close>.  It descends from an object that is not a function and
  not on the walk stack into the values of its own keys.
\<close>

inductive visits :: "heap \<Rightarrow> ref set \<Rightarrow> jsval \<Rightarrow> ref set \<Rightarrow> jsval \<Rightarrow> bool" for h where
  here: "visits h W v W v"
| down: "obj_at h r = Some ob \<Longrightarrow> \<not> is_function ob \<Longrightarrow> r \<notin> W \<Longrightarrow>
         c \<in> snd ` set (own_keys ob) \<Longrightarrow> visits h (insert r W) c W' v' \<Longrightarrow>
         visits h W (VRef r) W' v'"

text \<open>Every identifier handed out so far is positive, and so is the counter.\<close>

definition ids_pos :: "scan_state \<Rightarrow> bool" where
  "ids_pos s = (0 < idCounter s \<and> (\<forall>r i. circularIds s r = Some i \<longrightarrow> 0 < i))"

text \<open>
  The objects whose keys \<^verbatim>\<open>format\<close> walks: everything but functions, dates and regular
  expressions.
\<close>

definition is_container :: "obj \<Rightarrow> bool" where
  "is_container ob =
     (case okind ob of
        FunctionObject name src \<Rightarrow> False
      | DateObject d \<Rightarrow> False
      | RegExpObject t \<Rightarrow> False
      | _ \<Rightarrow> True)"

text \<open>No \<^verbatim>\<open>Date\<close> of the heap is invalid, so \<^verbatim>\<open>toISOString\<close> never raises.\<close>

definition no_invalid_date :: "heap \<Rightarrow> bool" where
  "no_invalid_date h = (\<forall>ob \<in> set h. okind ob \<noteq> DateObject None)"

text \<open>
  The table of identifiers has a truthy entry for every object that the walk from \<open>target\<close>
  meets again while it is on the walk stack.
\<close>

definition flagged :: "heap \<Rightarrow> jsval \<Rightarrow> (ref \<rightharpoonup> nat) \<Rightarrow> bool" where
  "flagged h target ids =
     (\<forall>W r ob. visits h {} target W (VRef r) \<and> r \<in> W \<and> obj_at h r = Some ob \<and> \<not> is_function ob
        \<longrightarrow> truthy_id (ids r))"

text \<open>
  A call returns, it raises only when the heap holds an invalid date, and the objects in \<open>P\<close>
  are still in the set \<open>seen\<close> afterwards.
\<close>

definition returns_well :: "heap \<Rightarrow> ref set \<Rightarrow> (jserror + 'a \<times> ref set) option \<Rightarrow> bool" where
  "returns_well h P r =
     (case r of
        None \<Rightarrow> False
      | Some (Inl e) \<Rightarrow> \<not> no_invalid_date h
      | Some (Inr (x, seen')) \<Rightarrow> P \<subseteq> seen')"

text \<open>The number of positions of a text where \<open>pat\<close> occurs.\<close>

fun count_occ :: "string \<Rightarrow> string \<Rightarrow> nat" where
  "count_occ pat [] = 0"
| "count_occ pat (c # cs) =
     (if take (length pat) (c # cs) = pat then 1 else 0) + count_occ pat cs"

text \<open>\<^verbatim>\<open>const o = {}; o.self = o\<close>\<close>

definition self_heap :: heap where
  "self_heap = [\<lparr>okind = PlainObject, props = [(KStr ''self'', VRef 0)]\<rparr>]"

definition self_rendering :: string where
  "self_rendering =
     c_cyan @ ''<ref *1>'' @ c_reset @ '' {'' @ [CHR 0x0A, CHR 0x09]
     @ ''self: '' @ c_cyan @ ''[Circular *1]'' @ c_reset @ [CHR 0x0A] @ ''}''"

text \<open>\<^verbatim>\<open>const a = []; const o = { left: a, right: a }; a.push(o, 7)\<close>\<close>

definition cycle_heap :: heap where
  "cycle_heap =
     [\<lparr>okind = PlainObject, props = [(KStr ''left'', VRef 1), (KStr ''right'', VRef 1)]\<rparr>,
      \<lparr>okind = ArrayObject, props = [(KStr ''0'', VRef 0), (KStr ''1'', VNum 7)]\<rparr>]"

definition cycle_rendering :: string where
  "cycle_rendering =
     c_cyan @ ''<ref *1>'' @ c_reset @ '' {'' @ [CHR 0x0A, CHR 0x09]
     @ ''left: ['' @ [CHR 0x0A, CHR 0x09, CHR 0x09]
     @ c_cyan @ ''[Circular *1]'' @ c_reset @ '','' @ [CHR 0x0A, CHR 0x09, CHR 0x09]
     @ c_yellow @ ''7'' @ c_reset @ [CHR 0x0A, CHR 0x09] @ ''],'' @ [CHR 0x0A, CHR 0x09]
     @ ''right: ['' @ [CHR 0x0A, CHR 0x09, CHR 0x09]
     @ c_cyan @ ''[Circular *1]'' @ c_reset @ '','' @ [CHR 0x0A, CHR 0x09, CHR 0x09]
     @ c_yellow @ ''7'' @ c_reset @ [CHR 0x0A, CHR 0x09] @ '']'' @ [CHR 0x0A] @ ''}''"

section \<open>Claims about the router\<close>

text \<open>
  C2.  Run-scoped execution: \<open>fn\<close> starts with \<open>v\<close> as the active instance; when the
  returned promise settles, the binding is the one from before the call, whether \<open>fn\<close>
  returned, threw, fulfilled or rejected, and whatever was rebound in between; the
  settlement is \<open>fn\<close>'s own value or error.  The Node variant hands the work to
  \<open>AsyncLocalStorage.run\<close>, with the same outcome for the caller's store.
\<close>

theorem consoleReflectRun_restores_binding:
  "snd (consoleReflectRun v fn env r) = r
   \<and> fst (consoleReflectRun v fn env r)
       = fst (await_result env (fst (fn (Some v))) (snd (fn (Some v))))
   \<and> (\<forall>a c'. fn (Some v) = (Value a, c') \<longrightarrow> fst (consoleReflectRun v fn env r) = Normal a)
   \<and> (\<forall>e c'. fn (Some v) = (Raise e, c') \<longrightarrow> fst (consoleReflectRun v fn env r) = Throw e)
   \<and> (\<forall>k c'. fn (Some v) = (Promise k, c') \<longrightarrow>
         fst (consoleReflectRun v fn env r) = fst (k (env c')))
   \<and> snd (node_consoleReflectRun v fn' store) = store
   \<and> fst (node_consoleReflectRun v fn' store) = fst (fn' (Some v))"
  by (auto simp: consoleReflectRun_def try_finally_def run_body_def Let_def
      node_consoleReflectRun_def AsyncLocalStorage_run_def split: prod.splits)

text \<open>A run at concrete inputs: a function that throws, one that returns, one that rebinds.\<close>

theorem consoleReflectRun_restores_binding_witness:
  "consoleReflectRun (1::nat) (\<lambda>c. (Raise (VStr ''boom'') :: (nat, jsval) fn_result, c)) (\<lambda>c. c)
      \<lparr>currentAsyncConsole = Some 0, defaultConsole = 0\<rparr>
     = (Throw (VStr ''boom''), \<lparr>currentAsyncConsole = Some 0, defaultConsole = 0\<rparr>)
   \<and> consoleReflectRun (1::nat) (\<lambda>c. (Value (VNum 7), Some 2)) (\<lambda>c. Some 3)
      \<lparr>currentAsyncConsole = None, defaultConsole = 0\<rparr>
     = (Normal (VNum 7), \<lparr>currentAsyncConsole = None, defaultConsole = 0\<rparr>)
   \<and> consoleReflectRun (1::nat) (\<lambda>c. (Promise (\<lambda>c. (Throw VNull, Some 5)), c)) (\<lambda>c. c)
      \<lparr>currentAsyncConsole = Some 4, defaultConsole = 0\<rparr>
     = (Throw VNull :: jsval completion, \<lparr>currentAsyncConsole = Some 4, defaultConsole = 0\<rparr>)"
  using
    consoleReflectRun_restores_binding
      [of "1::nat" "\<lambda>c. (Raise (VStr ''boom'') :: (nat, jsval) fn_result, c)" "\<lambda>c. c"
          "\<lparr>currentAsyncConsole = Some 0, defaultConsole = 0\<rparr>"
          "\<lambda>c. (VNull, c)" "None :: nat option"]
    consoleReflectRun_restores_binding
      [of "1::nat" "\<lambda>c. (Value (VNum 7), Some 2)" "\<lambda>c. Some 3"
          "\<lparr>currentAsyncConsole = None, defaultConsole = 0\<rparr>"
          "\<lambda>c. (VNull, c)" "None :: nat option"]
    consoleReflectRun_restores_binding
      [of "1::nat" "\<lambda>c. (Promise (\<lambda>c. (Throw VNull :: jsval completion, Some 5)), c)" "\<lambda>c. c"
          "\<lparr>currentAsyncConsole = Some 4, defaultConsole = 0\<rparr>"
          "\<lambda>c. (VNull, c)" "None :: nat option"]
  by (simp add: prod_eq_iff)

section \<open>Claims about the facade\<close>





section \<open>Claims about the instance\<close>

text \<open>
  C9.  \<open>clear\<close> empties both buffers and forgets the last overwritable-line identifier,
  leaves the configuration alone, calls the base console's \<open>clear\<close> exactly when
  pass-through is enabled, and a second \<open>clear\<close> leaves the instance as the first did.
\<close>

theorem clear_resets_and_is_idempotent:
  "outputs (fst (clear c)) = []
   \<and> outputsHtml (fst (clear c)) = []
   \<and> loggedFreshLineId (fst (clear c)) = None
   \<and> opts (fst (clear c)) = opts c
   \<and> (snd (clear c) = [BaseClear]) = realConsoleOutput (opts c)
   \<and> (snd (clear c) = []) = (\<not> realConsoleOutput (opts c))
   \<and> fst (clear (fst (clear c))) = fst (clear c)
   \<and> snd (clear (fst (clear c))) = snd (clear c)"
  by (simp add: clear_def)


text \<open>
  C6.  With an error handler configured, a call of \<open>error\<close> with exactly one argument
  that is an error object calls the handler with it and does nothing else: the instance
  is unchanged and nothing reaches the base console.  A call of another method, with
  another number of arguments, or with one argument that is not an error object (or
  with no handler configured) never calls the handler.  Both implementations.
\<close>

theorem error_interceptor_bypass:
  "(error_handler (opts c) = Some handler \<and> instanceof_Error h e \<longrightarrow>
      browser_call fuel P h Error [e] c = Some (Inr (c, [HandlerCall handler e]))
      \<and> node_call fuel P h NError [e] c = Some (Inr (c, [HandlerCall handler e])))
   \<and> (\<not> (m = Error \<and> error_handler (opts c) \<noteq> None \<and> length args = 1
           \<and> instanceof_Error h (hd args)) \<longrightarrow>
        (\<forall>c' evs k v. browser_call fuel P h m args c = Some (Inr (c', evs)) \<longrightarrow>
            HandlerCall k v \<notin> set evs))
   \<and> (\<not> (method_of nm = Error \<and> error_handler (opts c) \<noteq> None \<and> length args = 1
           \<and> instanceof_Error h (hd args)) \<longrightarrow>
        (\<forall>c' evs k v. node_call fuel P h nm args c = Some (Inr (c', evs)) \<longrightarrow>
            HandlerCall k v \<notin> set evs))"
  by (auto simp: browser_call_def node_call_def intercepts_def Let_def originalMethod_def
      VirtualStream_write_def split: option.splits sum.splits if_splits)


theorem error_interceptor_bypass_witness:
  "browser_call 1 sample_platform boom_heap Error [VRef 0] (console_with True True (Some 7))
     = Some (Inr (console_with True True (Some 7), [HandlerCall 7 (VRef 0)]))
   \<and> node_call 1 sample_platform boom_heap NError [VRef 0] (console_with True True (Some 7))
     = Some (Inr (console_with True True (Some 7), [HandlerCall 7 (VRef 0)]))
   \<and> HandlerCall 7 (VRef 0)
       \<notin> set (snd (projr (the (browser_call 1 sample_platform boom_heap Warn [VRef 0]
                                  (console_with True False (Some 7))))))
   \<and> HandlerCall 7 (VRef 0)
       \<notin> set (snd (projr (the (node_call 1 sample_platform boom_heap NError [VRef 0, VRef 0]
                                  (console_with True False (Some 7))))))"
proof -
  have b: "browser_call 1 sample_platform boom_heap Warn [VRef 0] (console_with True False (Some 7))
           = Some (Inr ((console_with True False (Some 7))\<lparr>loggedFreshLineId := None\<rparr>,
                        [BaseCall Warn [VRef 0]]))"
    by (simp add: browser_call_def intercepts_def console_with_def)
  have n: "node_call 1 sample_platform boom_heap NError [VRef 0, VRef 0]
             (console_with True False (Some 7))
           = Some (Inr ((console_with True False (Some 7))\<lparr>loggedFreshLineId := None\<rparr>,
                        [BaseCall Error [VRef 0, VRef 0]]))"
    by (simp add: node_call_def intercepts_def console_with_def)
  show ?thesis
    using
      error_interceptor_bypass
        [of "console_with True True (Some 7)" 7 boom_heap "VRef 0" 1 sample_platform
            Warn "[VRef 0]" NError]
      error_interceptor_bypass
        [of "console_with True False (Some 7)" 7 boom_heap "VRef 0" 1 sample_platform
            Warn "[VRef 0]" NError]
      error_interceptor_bypass
        [of "console_with True False (Some 7)" 7 boom_heap "VRef 0" 1 sample_platform
            Error "[VRef 0, VRef 0]" NError]
      instanceof_Error_boom b n
    by (simp add: console_with_def)
qed




section \<open>Claims about the argument formatters\<close>





text \<open>
  C4 fails on the code.  The plain-text formatter converts with \<open>String\<close> and
  \<open>parseInt\<close> where the HTML formatter converts with \<open>safeString\<close>: an object without
  a prototype under \<open>%s\<close> or after the template, a symbol under \<open>%d\<close>, and a cyclic
  object without a prototype as only argument make it throw \<open>TypeError\<close>, while
  \<open>safeString\<close> and the HTML formatter render the first of them.  The HTML formatter
  throws \<open>RangeError\<close> for an invalid date under \<open>%o\<close>.
\<close>

theorem formatters_throw_on_input_data:
  "formatArgs P null_proto_heap [VStr ''%s'', VRef 0] = Inl TypeError
   \<and> formatArgs P null_proto_heap [VStr ''value:'', VRef 0] = Inl TypeError
   \<and> formatArgs P h [VStr ''%d'', VSymbol ''tag''] = Inl TypeError
   \<and> formatArgs P null_proto_cycle_heap [VRef 0] = Inl TypeError
   \<and> safeString null_proto_heap (VRef 0) = Some ''{}''
   \<and> argsToHtml 1 sample_platform null_proto_heap [VStr ''%s'', VRef 0] = Some (Inr ''{}'')
   \<and> argsToHtml 1 sample_platform invalid_date_heap [VStr ''%o'', VRef 0] = Some (Inl RangeError)"
proof -
  have 1: "formatArgs P null_proto_heap [VStr ''%s'', VRef 0] = Inl TypeError"
    by (simp add: formatArgs_def plain_subst_def js_String_def null_proto_heap_def obj_at_def)
  have 2: "formatArgs P null_proto_heap [VStr ''value:'', VRef 0] = Inl TypeError"
    by (simp add: formatArgs_def emit_def rest_arg_def error_stack_def instanceof_Object_def
        js_String_def null_proto_heap_def obj_at_def)
  have 3: "formatArgs P h [VStr ''%d'', VSymbol ''tag''] = Inl TypeError"
    by (simp add: formatArgs_def plain_subst_def)
  have 4: "formatArgs P null_proto_cycle_heap [VRef 0] = Inl TypeError"
    by (simp add: formatArgs_def plain_arg_def error_stack_def JSON_stringify_def js_String_def
        null_proto_cycle_heap_def obj_at_def)
  have 5: "safeString null_proto_heap (VRef 0) = Some ''{}''"
    by (simp add: safeString_def js_String_def JSON_stringify_def null_proto_heap_def obj_at_def
        json_wrap_def)
  have 6: "argsToHtml 1 sample_platform invalid_date_heap [VStr ''%o'', VRef 0]
             = Some (Inl RangeError)"
    by code_simp
  have 7: "argsToHtml 1 sample_platform null_proto_heap [VStr ''%s'', VRef 0] = Some (Inr ''{}'')"
    by code_simp
  show ?thesis using 1 2 3 4 5 6 7 by blast
qed



section \<open>Claims about the style argument\<close>

















section \<open>The structural stringifier returns\<close>

subsection \<open>The scan\<close>

lemma visits_snoc:
  "visits h W v W' v' \<Longrightarrow> v' = VRef r' \<Longrightarrow> obj_at h r' = Some ob \<Longrightarrow> \<not> is_function ob \<Longrightarrow>
   r' \<notin> W' \<Longrightarrow> c \<in> snd ` set (own_keys ob) \<Longrightarrow> visits h W v (insert r' W') c"
proof (induction rule: visits.induct)
  case (here W v)
  then show ?case by (auto intro: visits.intros)
next
  case (down r ob0 W c0 W' v')
  then show ?case by (auto intro: visits.down)
qed

lemma visits_from_value:
  "visits h W v W' v' \<Longrightarrow> \<forall>r. v \<noteq> VRef r \<Longrightarrow> W' = W \<and> v' = v"
  by (erule visits.cases) auto

lemma scan_mono:
  "circularIds s x = Some i \<Longrightarrow> circularIds (scan h W v s) x = Some i"
  "circularIds s x = Some i \<Longrightarrow> circularIds (scan_keys h W vs s) x = Some i"
  by (induction h W v s and h W vs s rule: scan_scan_keys.induct)
     (auto split: option.splits)

lemma ids_pos_update:
  "ids_pos s \<Longrightarrow>
   ids_pos (s\<lparr>circularIds := (circularIds s)(r \<mapsto> idCounter s), idCounter := Suc (idCounter s)\<rparr>)"
  by (simp add: ids_pos_def)

lemma scan_pos:
  "ids_pos s \<Longrightarrow> ids_pos (scan h W v s)"
  "ids_pos s \<Longrightarrow> ids_pos (scan_keys h W vs s)"
  by (induction h W v s and h W vs s rule: scan_scan_keys.induct)
     (auto simp: ids_pos_update split: option.splits)

text \<open>An object met again on the walk stack has an identifier after the scan.\<close>

lemma scan_flags:
  "visits h W v W' (VRef r') \<Longrightarrow> r' \<in> W' \<Longrightarrow> obj_at h r' = Some ob' \<Longrightarrow> \<not> is_function ob' \<Longrightarrow>
   circularIds (scan h W v s) r' \<noteq> None"
  "c \<in> set vs \<Longrightarrow> visits h W c W' (VRef r') \<Longrightarrow> r' \<in> W' \<Longrightarrow> obj_at h r' = Some ob' \<Longrightarrow>
   \<not> is_function ob' \<Longrightarrow> circularIds (scan_keys h W vs s) r' \<noteq> None"
proof (induction h W v s and h W vs s arbitrary: W' r' ob' and c W' r' ob'
       rule: scan_scan_keys.induct)
  case (1 h walkStack r s)
  from "1.prems"(1) show ?case
  proof (cases rule: visits.cases)
    case here
    then show ?thesis using "1.prems" by (auto split: option.splits)
  next
    case (down ob c)
    then have "c \<in> set (map snd (own_keys ob))" by auto
    from "1.IH" [OF down(1) down(2) down(3) this down(5) "1.prems"(2,3,4)]
    show ?thesis using down by simp
  qed
next
  case (3 h walkStack s)
  then show ?case by simp
next
  case (4 h walkStack v vs s)
  show ?case
  proof (cases "c = v")
    case True
    with "4.IH"(1) "4.prems" have "circularIds (scan h walkStack v s) r' \<noteq> None"
      by blast
    then obtain i where "circularIds (scan h walkStack v s) r' = Some i" by auto
    from scan_mono(2) [OF this] show ?thesis by simp
  next
    case False
    with "4.prems" have "c \<in> set vs" by simp
    from "4.IH"(2) [OF this "4.prems"(2,3,4,5)] show ?thesis by simp
  qed
qed (auto dest: visits_from_value)

lemma scan_flagged:
  "flagged h target (circularIds (scan h {} target \<lparr>circularIds = Map.empty, idCounter = 1\<rparr>))"
proof -
  let ?s0 = "\<lparr>circularIds = Map.empty, idCounter = 1\<rparr>"
  have pos: "ids_pos (scan h {} target ?s0)"
    by (rule scan_pos) (simp add: ids_pos_def)
  show ?thesis
    unfolding flagged_def
  proof (intro allI impI)
    fix W r ob
    assume a: "visits h {} target W (VRef r) \<and> r \<in> W \<and> obj_at h r = Some ob \<and> \<not> is_function ob"
    then have "circularIds (scan h {} target ?s0) r \<noteq> None"
      using scan_flags(1) [of h "{}" target W r ob ?s0] by blast
    then show "truthy_id (circularIds (scan h {} target ?s0) r)"
      using pos by (auto simp: truthy_id_def ids_pos_def)
  qed
qed

subsection \<open>The formatter\<close>

lemma format_container:
  "obj_at h r = Some ob \<Longrightarrow> is_container ob \<Longrightarrow>
   format (Suc fuel) h ids depth (VRef r) currentDepth seen =
     (let refId = ids r in
      if r \<in> seen \<and> truthy_id refId
      then Some (Inr (c_cyan @ ''[Circular *'' @ id_text refId @ '']'' @ c_reset, seen))
      else if deeper_than currentDepth depth
      then Some (Inr (c_cyan @ ''[Object]'' @ c_reset, seen))
      else
        (let seen1 = insert r seen;
             isArray = (okind ob = ArrayObject);
             prefix = (if truthy_id refId
                       then c_cyan @ ''<ref *'' @ id_text refId @ ''>'' @ c_reset @ '' ''
                       else []);
             opn = (if isArray then ''['' else ''{'');
             cls = (if isArray then '']'' else ''}'');
             keys = own_keys ob
         in if keys = [] then Some (Inr (prefix @ opn @ cls, seen1))
            else
              (case format_keys fuel h ids depth isArray keys currentDepth seen1 of
                 None \<Rightarrow> None
               | Some (Inl e) \<Rightarrow> Some (Inl e)
               | Some (Inr (items, seen2)) \<Rightarrow>
                   Some (Inr (prefix @ opn @ [CHR 0x0A]
                              @ join ('','' @ [CHR 0x0A]) items
                              @ [CHR 0x0A] @ replicate currentDepth (CHR 0x09) @ cls,
                              seen2 - {r})))))"
  by (cases "okind ob") (simp_all add: is_container_def)

lemma is_container_not_function: "is_container ob \<Longrightarrow> \<not> is_function ob"
  by (cases "okind ob") (simp_all add: is_container_def is_function_def)

lemma format_keys_returns:
  assumes A: "\<And>P v d seen. visits h {} target P v \<Longrightarrow> P \<subseteq> seen \<Longrightarrow> room h P < fuel \<Longrightarrow>
                returns_well h P (format fuel h ids depth v d seen)"
  shows "\<forall>kv \<in> set kvs. visits h {} target P (snd kv) \<Longrightarrow> P \<subseteq> seen \<Longrightarrow> room h P < fuel \<Longrightarrow>
         returns_well h P (format_keys fuel h ids depth isArray kvs d seen)"
proof (induction kvs arbitrary: seen)
  case Nil
  then show ?case by (simp add: returns_well_def)
next
  case (Cons kv kvs)
  obtain key v where kv: "kv = (key, v)" by (cases kv)
  have "visits h {} target P v" using Cons.prems(1) kv by simp
  from A [OF this Cons.prems(2,3)]
  have first: "returns_well h P (format fuel h ids depth v (d + 1) seen)" .
  show ?case
  proof (cases "format fuel h ids depth v (d + 1) seen")
    case None
    with first show ?thesis by (simp add: returns_well_def)
  next
    case (Some res)
    show ?thesis
    proof (cases res)
      case (Inl e)
      with Some first show ?thesis by (simp add: kv returns_well_def)
    next
      case (Inr p)
      obtain valStr seen1 where p: "p = (valStr, seen1)" by (cases p)
      have sub: "P \<subseteq> seen1" using first Some Inr p by (simp add: returns_well_def)
      have "returns_well h P (format_keys fuel h ids depth isArray kvs d seen1)"
        using Cons.IH [OF _ sub Cons.prems(3)] Cons.prems(1) by simp
      then show ?thesis
        using Some Inr p
        by (cases "format_keys fuel h ids depth isArray kvs d seen1")
           (auto simp: kv returns_well_def split: sum.splits split del: if_split)
    qed
  qed
qed

text \<open>
  Between two calls on the same object the set \<open>seen\<close> holds every object of the path, so a
  nesting of calls is never deeper than the number of objects of the heap.
\<close>

lemma format_returns:
  assumes F: "flagged h target ids"
  shows "visits h {} target P v \<Longrightarrow> P \<subseteq> seen \<Longrightarrow> room h P < fuel \<Longrightarrow>
         returns_well h P (format fuel h ids depth v d seen)"
proof (induction fuel arbitrary: P v d seen)
  case 0
  then show ?case by simp
next
  case (Suc fuel)
  have B: "returns_well h P' (format_keys fuel h ids depth isA kvs d' seen')"
    if "\<forall>kv \<in> set kvs. visits h {} target P' (snd kv)" "P' \<subseteq> seen'" "room h P' < fuel"
    for P' isA kvs d' seen'
  proof (rule format_keys_returns [where target = target])
    show "returns_well h Q (format fuel h ids depth w e sn)"
      if "visits h {} target Q w" "Q \<subseteq> sn" "room h Q < fuel" for Q w e sn
      using that by (rule Suc.IH)
  qed (use that in auto)
  show ?case
  proof (cases v)
    case (VRef r)
    show ?thesis
    proof (cases "obj_at h r")
      case None
      with VRef Suc.prems show ?thesis by (simp add: returns_well_def)
    next
      case (Some ob)
      show ?thesis
      proof (cases "is_container ob")
        case False
        then show ?thesis
          using VRef Some Suc.prems(2)
          by (cases "okind ob")
             (auto simp: is_container_def returns_well_def no_invalid_date_def obj_at_def
                split: option.splits if_splits)
      next
        case True
        note eq = format_container [OF Some True, of fuel ids depth d seen]
        show ?thesis
        proof (cases "r \<in> seen \<and> truthy_id (ids r)")
          case True
          then show ?thesis
            using VRef Suc.prems(2) by (simp add: eq returns_well_def Let_def del: format.simps)
        next
          case nc: False
          show ?thesis
          proof (cases "deeper_than d depth")
            case True
            then show ?thesis
              using VRef nc Suc.prems(2) by (simp add: eq returns_well_def Let_def del: format.simps)
          next
            case nd: False
            show ?thesis
            proof (cases "own_keys ob = []")
              case True
              then show ?thesis
                using VRef nc nd Suc.prems(2)
                by (auto simp: eq returns_well_def Let_def simp del: format.simps)
            next
              case keys: False
              have rP: "r \<notin> P"
              proof
                assume "r \<in> P"
                moreover have "visits h {} target P (VRef r)" using Suc.prems(1) VRef by simp
                ultimately have "truthy_id (ids r)"
                  using F Some is_container_not_function [OF True] unfolding flagged_def by blast
                with \<open>r \<in> P\<close> Suc.prems(2) nc show False by auto
              qed
              have vis: "\<forall>kv \<in> set (own_keys ob). visits h {} target (insert r P) (snd kv)"
              proof
                fix kv assume "kv \<in> set (own_keys ob)"
                then have "snd kv \<in> snd ` set (own_keys ob)" by simp
                from visits_snoc [OF _ _ Some is_container_not_function [OF True] rP this, of "{}" target]
                show "visits h {} target (insert r P) (snd kv)"
                  using Suc.prems(1) VRef by simp
              qed
              have rm: "room h (insert r P) < fuel"
                using room_insert [OF Some rP] Suc.prems(3) by simp
              have sub: "insert r P \<subseteq> insert r seen" using Suc.prems(2) by auto
              from B [OF vis sub rm, where isA = "okind ob = ArrayObject" and d' = d]
              have "returns_well h (insert r P)
                      (format_keys fuel h ids depth (okind ob = ArrayObject) (own_keys ob) d (insert r seen))" .
              then show ?thesis
                using VRef nc nd keys rP
                by (cases "format_keys fuel h ids depth (okind ob = ArrayObject) (own_keys ob) d (insert r seen)")
                   (auto simp: eq returns_well_def Let_def simp del: format.simps
                      split: sum.splits split del: if_split)
            qed
          qed
        qed
      qed
    qed
  qed (use Suc.prems in \<open>simp_all add: returns_well_def\<close>)
qed

text \<open>More fuel never changes a result.\<close>

lemma format_keys_more_fuel:
  assumes A: "\<And>v d seen r. format fuel h ids depth v d seen = Some r \<Longrightarrow>
                format (Suc fuel) h ids depth v d seen = Some r"
  shows "format_keys fuel h ids depth isA kvs d seen = Some r \<Longrightarrow>
         format_keys (Suc fuel) h ids depth isA kvs d seen = Some r"
proof (induction kvs arbitrary: seen r)
  case Nil
  then show ?case by simp
next
  case (Cons kv kvs)
  obtain key v where kv: "kv = (key, v)" by (cases kv)
  from Cons.prems obtain x where x: "format fuel h ids depth v (d + 1) seen = Some x"
    by (cases "format fuel h ids depth v (d + 1) seen") (simp_all add: kv)
  note x' = A [OF x]
  show ?case
  proof (cases x)
    case (Inl e)
    with Cons.prems x x' show ?thesis by (simp add: kv)
  next
    case (Inr p)
    obtain valStr seen1 where p: "p = (valStr, seen1)" by (cases p)
    from Cons.prems x Inr p obtain y where
      y: "format_keys fuel h ids depth isA kvs d seen1 = Some y"
      by (cases "format_keys fuel h ids depth isA kvs d seen1") (simp_all add: kv)
    note y' = Cons.IH [OF y]
    from Cons.prems show ?thesis
      using x x' y y' Inr p by (simp add: kv del: format.simps(1-9) split del: if_split)
  qed
qed

lemma format_more_fuel:
  "format fuel h ids depth v d seen = Some r \<Longrightarrow> format (Suc fuel) h ids depth v d seen = Some r"
proof (induction fuel arbitrary: v d seen r)
  case 0
  then show ?case by simp
next
  case (Suc fuel)
  have K: "format_keys (Suc fuel) h ids depth isA kvs d' seen' = Some r'"
    if "format_keys fuel h ids depth isA kvs d' seen' = Some r'" for isA kvs d' seen' r'
    using that
  proof (rule format_keys_more_fuel [rotated])
    show "format (Suc fuel) h ids depth w e sn = Some q"
      if "format fuel h ids depth w e sn = Some q" for w e sn q
      using that by (rule Suc.IH)
  qed
  show ?case
  proof (cases v)
    case (VRef x)
    show ?thesis
    proof (cases "obj_at h x")
      case None
      with VRef Suc.prems show ?thesis by simp
    next
      case (Some ob)
      show ?thesis
      proof (cases "is_container ob")
        case False
        then show ?thesis
          using VRef Some Suc.prems
          by (cases "okind ob") (auto simp: is_container_def)
      next
        case True
        note e1 = format_container [OF Some True, of fuel ids depth d seen]
        note e2 = format_container [OF Some True, of "Suc fuel" ids depth d seen]
        show ?thesis
        proof (cases "format_keys fuel h ids depth (okind ob = ArrayObject) (own_keys ob) d
                        (insert x seen)")
          case None
          then show ?thesis
            using Suc.prems VRef
            by (auto simp: e1 e2 Let_def simp del: format.simps split: if_splits)
        next
          case (Some y)
          from K [OF this] show ?thesis
            using Suc.prems VRef Some
            by (auto simp: e1 e2 Let_def simp del: format.simps split: if_splits)
        qed
      qed
    qed
  qed (use Suc.prems in simp_all)
qed

lemma format_add_fuel:
  "format fuel h ids depth v d seen = Some r \<Longrightarrow>
   format (fuel + k) h ids depth v d seen = Some r"
  by (induction k) (simp_all add: format_more_fuel del: format.simps)

lemma circularToString_returns:
  assumes "length h < fuel"
  shows "\<exists>res. circularToString fuel h target depth = Some res
           \<and> (no_invalid_date h \<longrightarrow> (\<exists>str. res = Inr str))"
proof -
  let ?ids = "circularIds (scan h {} target \<lparr>circularIds = Map.empty, idCounter = 1\<rparr>)"
  have "room h {} < fuel" using assms by (simp add: room_def)
  from format_returns [OF scan_flagged visits.here _ this, where seen = "{}" and depth = depth and d = 0]
  have "returns_well h {} (format fuel h ?ids depth target 0 {})" by simp
  then show ?thesis
    by (cases "format fuel h ?ids depth target 0 {}")
       (auto simp: circularToString_def returns_well_def Let_def split: sum.splits)
qed

lemma circularToString_fuel:
  assumes "length h < fuel"
  shows "circularToString fuel h target depth = circularToString (Suc (length h)) h target depth"
proof -
  let ?ids = "circularIds (scan h {} target \<lparr>circularIds = Map.empty, idCounter = 1\<rparr>)"
  from circularToString_returns [of h "Suc (length h)" target depth]
  obtain x where x: "format (Suc (length h)) h ?ids depth target 0 {} = Some x"
    by (cases "format (Suc (length h)) h ?ids depth target 0 {}")
       (auto simp: circularToString_def Let_def simp del: format.simps)
  from assms obtain k where k: "fuel = Suc (length h) + k"
    by (metis Suc_leI le_iff_add)
  from format_add_fuel [OF x, of k] k
  have "format fuel h ?ids depth target 0 {} = Some x" by simp
  with x show ?thesis by (simp add: circularToString_def Let_def del: format.simps)
qed

subsection \<open>A self-referential object\<close>

lemma self_reference_rendering:
  "circularToString (Suc (Suc k)) self_heap (VRef 0) None = Some (Inr self_rendering)"
  by (simp add: circularToString_def self_heap_def obj_at_def is_function_def own_keys_def
      is_string_key_def truthy_id_def id_text_def deeper_than_def key_text_def is_identifier_def
      is_ident_start_def is_word_char_def join_def self_rendering_def Let_def digit_def)

text \<open>
  C7.  On every heap, cyclic or not, \<^verbatim>\<open>circularToString\<close> returns: a nesting
  of calls of \<^verbatim>\<open>format\<close> deeper than the number of objects of the heap never happens, so
  every fuel above that number gives the same result, and the result is a text unless the
  heap holds an invalid \<^verbatim>\<open>Date\<close>, the one value on which \<^verbatim>\<open>format\<close> raises.  For the object
  \<open>o\<close> with \<^verbatim>\<open>o.self = o\<close> the text has one back-reference marker, \<^verbatim>\<open>[Circular *1]\<close>, and one
  prefix \<^verbatim>\<open><ref *1>\<close>, at the start of the text, where \<open>o\<close> itself is printed.
\<close>

theorem circularToString_terminates:
  "(\<exists>res. (\<forall>fuel. length h < fuel \<longrightarrow> circularToString fuel h target depth = Some res)
         \<and> ((\<forall>ob \<in> set h. okind ob \<noteq> DateObject None) \<longrightarrow> (\<exists>str. res = Inr str)))
   \<and> circularToString (Suc (Suc k)) self_heap (VRef 0) None = Some (Inr self_rendering)
   \<and> count_occ ''[Circular *'' self_rendering = 1
   \<and> count_occ ''[Circular *1]'' self_rendering = 1
   \<and> count_occ ''<ref *'' self_rendering = 1
   \<and> take 13 self_rendering = c_cyan @ ''<ref *1>''"
proof -
  have c: "count_occ ''[Circular *'' self_rendering = 1
   \<and> count_occ ''[Circular *1]'' self_rendering = 1
   \<and> count_occ ''<ref *'' self_rendering = 1
   \<and> take 13 self_rendering = c_cyan @ ''<ref *1>''"
    by code_simp
  from circularToString_returns [of h "Suc (length h)" target depth]
  obtain res where res: "circularToString (Suc (length h)) h target depth = Some res"
    and ok: "no_invalid_date h \<longrightarrow> (\<exists>str. res = Inr str)"
    by auto
  have "circularToString fuel h target depth = Some res" if "length h < fuel" for fuel
    using circularToString_fuel [OF that, of target depth] res by simp
  then have "\<forall>fuel. length h < fuel \<longrightarrow> circularToString fuel h target depth = Some res"
    by blast
  moreover have "(\<forall>ob \<in> set h. okind ob \<noteq> DateObject None) \<longrightarrow> (\<exists>str. res = Inr str)"
    using ok by (simp add: no_invalid_date_def)
  ultimately show ?thesis
    using self_reference_rendering [of k] c by blast
qed

theorem circularToString_terminates_witness:
  "length cycle_heap < 3
   \<and> circularToString 3 cycle_heap (VRef 0) None = Some (Inr cycle_rendering)"
proof -
  have l: "length cycle_heap < 3" by (simp add: cycle_heap_def)
  have e: "circularToString 4 cycle_heap (VRef 0) None = Some (Inr cycle_rendering)"
    by code_simp
  from circularToString_terminates [of cycle_heap "VRef 0" None 0]
  obtain res where
    r: "\<forall>fuel. length cycle_heap < fuel \<longrightarrow> circularToString fuel cycle_heap (VRef 0) None = Some res"
    by blast
  from r l have "circularToString 3 cycle_heap (VRef 0) None = Some res" by blast
  moreover from r l have "circularToString 4 cycle_heap (VRef 0) None = Some res" by simp
  ultimately show ?thesis using e l by simp
qed


end
